theory Spec2Isabelle
  imports Complex_Main
begin

section \<open>JavaScript numbers\<close>

text \<open>
  Every number of \<^verbatim>\<open>app.js\<close> is an IEEE-754 double. The model keeps the three special
  values the code's comparisons and divisions can meet (\<open>+Infinity\<close>, \<open>-Infinity\<close>, \<open>NaN\<close>),
  takes the finite ones as reals and has one zero (a division by zero takes the sign of
  the dividend). The operations \<open>jadd\<close>, \<open>jsub\<close>, \<open>jmul\<close>, \<open>jdiv\<close> below give the exact
  result; \<open>rounded\<close> (next section) rounds it to a double. The sampler is modelled with the
  exact results: its properties are about which points are pushed and in which order.
  \<open>calculateTimedPoints\<close> rounds after every operation, as the processor does: a
  \<open>Date\<close> keeps whole milliseconds, and one unit in the last place decides which.
\<close>

datatype jsnum = Fin real | PInf | NInf | NaN

fun isFinite :: "jsnum \<Rightarrow> bool" where
  "isFinite (Fin x) = True"
| "isFinite _ = False"

text \<open>\<open>a <= b\<close>; \<open>a >= b\<close> is \<open>jle b a\<close>. Any comparison with \<open>NaN\<close> is false.\<close>

fun jle :: "jsnum \<Rightarrow> jsnum \<Rightarrow> bool" where
  "jle NaN b = False"
| "jle a NaN = False"
| "jle NInf b = True"
| "jle a PInf = True"
| "jle (Fin x) (Fin y) = (x \<le> y)"
| "jle PInf b = False"
| "jle (Fin x) NInf = False"

text \<open>\<open>a < b\<close>\<close>

fun jlt :: "jsnum \<Rightarrow> jsnum \<Rightarrow> bool" where
  "jlt NaN b = False"
| "jlt a NaN = False"
| "jlt (Fin x) (Fin y) = (x < y)"
| "jlt (Fin x) PInf = True"
| "jlt (Fin x) NInf = False"
| "jlt NInf NInf = False"
| "jlt NInf b = True"
| "jlt PInf b = False"

text \<open>\<open>a === b\<close> on numbers: \<open>NaN\<close> is not equal to itself.\<close>

fun jeq :: "jsnum \<Rightarrow> jsnum \<Rightarrow> bool" where
  "jeq NaN b = False"
| "jeq a NaN = False"
| "jeq a b = (a = b)"

fun infOfSign :: "real \<Rightarrow> jsnum" where
  "infOfSign x = (if x = 0 then NaN else if 0 < x then PInf else NInf)"

fun jneg :: "jsnum \<Rightarrow> jsnum" where
  "jneg (Fin x) = Fin (- x)"
| "jneg PInf = NInf"
| "jneg NInf = PInf"
| "jneg NaN = NaN"

fun jadd :: "jsnum \<Rightarrow> jsnum \<Rightarrow> jsnum" where
  "jadd NaN b = NaN"
| "jadd a NaN = NaN"
| "jadd (Fin x) (Fin y) = Fin (x + y)"
| "jadd PInf NInf = NaN"
| "jadd NInf PInf = NaN"
| "jadd PInf b = PInf"
| "jadd a PInf = PInf"
| "jadd NInf b = NInf"
| "jadd a NInf = NInf"

definition jsub :: "jsnum \<Rightarrow> jsnum \<Rightarrow> jsnum" where
  "jsub a b = jadd a (jneg b)"

fun jmul :: "jsnum \<Rightarrow> jsnum \<Rightarrow> jsnum" where
  "jmul NaN b = NaN"
| "jmul a NaN = NaN"
| "jmul (Fin x) (Fin y) = Fin (x * y)"
| "jmul (Fin x) PInf = infOfSign x"
| "jmul (Fin x) NInf = infOfSign (- x)"
| "jmul PInf (Fin y) = infOfSign y"
| "jmul NInf (Fin y) = infOfSign (- y)"
| "jmul PInf PInf = PInf"
| "jmul PInf NInf = NInf"
| "jmul NInf PInf = NInf"
| "jmul NInf NInf = PInf"

fun jdiv :: "jsnum \<Rightarrow> jsnum \<Rightarrow> jsnum" where
  "jdiv NaN b = NaN"
| "jdiv a NaN = NaN"
| "jdiv (Fin x) (Fin y) = (if y = 0 then infOfSign x else Fin (x / y))"
| "jdiv (Fin x) PInf = Fin 0"
| "jdiv (Fin x) NInf = Fin 0"
| "jdiv PInf (Fin y) = (if 0 \<le> y then PInf else NInf)"
| "jdiv NInf (Fin y) = (if 0 \<le> y then NInf else PInf)"
| "jdiv a b = NaN"

section \<open>Rounding to doubles\<close>

text \<open>
  A double has a significand of 53 bits and an exponent between -1074 (the spacing of the
  subnormal numbers) and 971. \<open>normalize\<close> looks for the exponent \<open>e\<close> of the spacing
  around \<open>m \<ge> 0\<close>: it halves or doubles \<open>m\<close> until it lies in \<open>[2^52, 2^53)\<close>, and stops
  doubling at -1074. The first argument bounds the number of steps; 2200 are enough for
  every quotient, product and sum of two doubles.
\<close>

fun normalize :: "nat \<Rightarrow> real \<Rightarrow> int \<Rightarrow> int" where
  "normalize 0 m e = e"
| "normalize (Suc k) m e =
     (if 2 ^ 53 \<le> m then normalize k (m / 2) (e + 1)
      else if m < 2 ^ 52 \<and> - 1074 < e then normalize k (m * 2) (e - 1)
      else e)"

text \<open>Rounding to the nearest integer, a tie to the even one.\<close>

definition roundEven :: "real \<Rightarrow> int" where
  "roundEven x =
     (let n = \<lfloor>x\<rfloor>; r = x - of_int n in
      if r < 1 / 2 then n else if 1 / 2 < r then n + 1 else if even n then n else n + 1)"

text \<open>
  Round to nearest, ties to even: the nearest multiple of the spacing, and an infinity
  when that reaches \<open>2^1024\<close>.
\<close>

definition fl64 :: "real \<Rightarrow> jsnum" where
  "fl64 x =
     (let q = 2 powi normalize 2200 \<bar>x\<bar> 0;
          y = of_int (roundEven (x / q)) * q
      in if 2 ^ 1024 \<le> \<bar>y\<bar> then infOfSign y else Fin y)"

fun rounded :: "jsnum \<Rightarrow> jsnum" where
  "rounded (Fin x) = fl64 x"
| "rounded v = v"

section \<open>Points\<close>

text \<open>
  The object literals of \<^verbatim>\<open>app.js\<close>: \<open>{lat, lon, cumulativeDistance}\<close> is what
  \<open>processGPX\<close> and \<open>samplePointsByDistance\<close> build.
\<close>

record geoPoint =
  lat :: jsnum
  lon :: jsnum

record point = geoPoint +
  cumulativeDistance :: jsnum

section \<open>samplePointsByDistance\<close>

text \<open>
  \<open>xs.indexOf(y)\<close>: the first index holding \<open>y\<close>, or \<open>-1\<close>. JavaScript compares objects by
  identity; values here have none, so the model compares by content. For the one call in
  the code both agree (lemma \<open>indexOf_find\<close> below): the object searched for is the first
  element satisfying a predicate on its content.
\<close>

fun indexOf :: "'a list \<Rightarrow> 'a \<Rightarrow> int" where
  "indexOf [] y = - 1"
| "indexOf (x # xs) y =
     (if x = y then 0 else (let i = indexOf xs y in if i < 0 then - 1 else i + 1))"

text \<open>\<open>xs[i]\<close>: \<open>undefined\<close> (here \<open>None\<close>) for an index outside the array.\<close>

definition elemAt :: "'a list \<Rightarrow> int \<Rightarrow> 'a option" where
  "elemAt xs i = (if 0 \<le> i \<and> i < int (length xs) then Some (xs ! nat i) else None)"

text \<open>Lines 86-93: the interpolated object pushed in the \<open>else\<close> branch.\<close>

definition interpolate :: "point \<Rightarrow> point \<Rightarrow> jsnum \<Rightarrow> point" where
  "interpolate prevPoint nextPoint currentInterval =
     (let ratio = jdiv (jsub currentInterval (cumulativeDistance prevPoint))
                       (jsub (cumulativeDistance nextPoint) (cumulativeDistance prevPoint))
      in \<lparr> lat = jadd (lat prevPoint) (jmul (jsub (lat nextPoint) (lat prevPoint)) ratio),
           lon = jadd (lon prevPoint) (jmul (jsub (lon nextPoint) (lon prevPoint)) ratio),
           cumulativeDistance = currentInterval \<rparr>)"

text \<open>
  Lines 79-94: what one iteration pushes once \<open>find\<close> has returned \<open>nextPoint\<close>. The test
  \<open>nextPoint.cumulativeDistance === currentInterval || !prevPoint\<close> is written as a case on
  \<open>prevPoint\<close>, which is \<open>undefined\<close> exactly when \<open>nextPoint\<close> sits at index 0.
\<close>

definition sampleAt :: "point list \<Rightarrow> point \<Rightarrow> jsnum \<Rightarrow> point" where
  "sampleAt points nextPoint currentInterval =
     (case elemAt points (indexOf points nextPoint - 1) of
        None \<Rightarrow> nextPoint
      | Some prevPoint \<Rightarrow>
          if jeq (cumulativeDistance nextPoint) currentInterval then nextPoint
          else interpolate prevPoint nextPoint currentInterval)"

text \<open>
  Lines 73-97: the \<open>while\<close> loop, with \<open>sampled\<close> and \<open>currentInterval\<close> as its state. The
  loop need not end (a track whose last distance is \<open>+Infinity\<close> keeps it running), so
  the result is an option and \<open>None\<close> stands for a run that never returns.
\<close>

partial_function (option) sampleLoop ::
  "point list \<Rightarrow> jsnum \<Rightarrow> jsnum \<Rightarrow> point list \<Rightarrow> jsnum \<Rightarrow> point list option" where
  "sampleLoop points intervalMeters totalDistance sampled currentInterval =
     (if jle currentInterval totalDistance then
        (case List.find (\<lambda>p. jle currentInterval (cumulativeDistance p)) points of
           None \<Rightarrow> Some sampled
         | Some nextPoint \<Rightarrow>
             sampleLoop points intervalMeters totalDistance
               (sampled @ [sampleAt points nextPoint currentInterval])
               (jadd currentInterval intervalMeters))
      else Some sampled)"

text \<open>Lines 99-103: the final point is appended unless the last sample already reaches it.\<close>

definition includeFinal :: "point list \<Rightarrow> point list \<Rightarrow> point list" where
  "includeFinal points sampled =
     (let lastPoint = last points in
      if sampled = [] \<or> jlt (cumulativeDistance (last sampled)) (cumulativeDistance lastPoint)
      then sampled @ [lastPoint] else sampled)"

definition samplePointsByDistance :: "point list \<Rightarrow> jsnum \<Rightarrow> point list option" where
  "samplePointsByDistance points intervalMeters =
     (if points = [] \<or> jle intervalMeters (Fin 0) then Some points
      else
        (let totalDistance = cumulativeDistance (last points) in
         case sampleLoop points intervalMeters totalDistance [] (Fin 0) of
           None \<Rightarrow> None
         | Some sampled \<Rightarrow> Some (includeFinal points sampled)))"

text \<open>
  The invariants of a track: the cumulative distances are finite numbers, they never
  decrease along the list, and the first one is 0 (what \<open>processGPX\<close> produces).
\<close>

definition finiteDistances :: "point list \<Rightarrow> bool" where
  "finiteDistances points = list_all (\<lambda>p. isFinite (cumulativeDistance p)) points"

definition nonDecreasing :: "point list \<Rightarrow> bool" where
  "nonDecreasing points =
     sorted_wrt (\<lambda>p q. jle (cumulativeDistance p) (cumulativeDistance q)) points"

definition startsAtZero :: "point list \<Rightarrow> bool" where
  "startsAtZero points = (case points of [] \<Rightarrow> False | p # rest \<Rightarrow> cumulativeDistance p = Fin 0)"

definition strictlyIncreasing :: "point list \<Rightarrow> bool" where
  "strictlyIncreasing points =
     sorted_wrt (\<lambda>p q. jlt (cumulativeDistance p) (cumulativeDistance q)) points"

section \<open>Dates and calculateTimedPoints\<close>

text \<open>
  A \<open>Date\<close> object is its time value: milliseconds since the epoch, or \<open>NaN\<close> for an
  Invalid Date. \<open>new Date(v)\<close> on a number applies the language's \<open>TimeClip\<close>: a value
  that is not finite or beyond 8.64e15 in magnitude gives \<open>NaN\<close>, any other value is
  truncated towards zero to a whole number of milliseconds.
\<close>

datatype date = Date jsnum

fun getTime :: "date \<Rightarrow> jsnum" where
  "getTime (Date t) = t"

definition toInteger :: "real \<Rightarrow> int" where
  "toInteger x = (if 0 \<le> x then \<lfloor>x\<rfloor> else \<lceil>x\<rceil>)"

fun timeClip :: "jsnum \<Rightarrow> jsnum" where
  "timeClip (Fin x) = (if 8640000000000000 < \<bar>x\<bar> then NaN else Fin (of_int (toInteger x)))"
| "timeClip v = NaN"

definition newDate :: "jsnum \<Rightarrow> date" where
  "newDate v = Date (timeClip v)"

record timedPoint = geoPoint +
  time :: date

text \<open>
  Lines 108-115. The object literal has the three properties \<open>lat\<close>, \<open>lon\<close>, \<open>time\<close>.
  Each of the two divisions, the multiplication and the addition of lines 112-113 is
  rounded to a double before the next one uses it.
\<close>

definition calculateTimedPoints :: "point list \<Rightarrow> date \<Rightarrow> jsnum \<Rightarrow> timedPoint list" where
  "calculateTimedPoints points startTime avgSpeed =
     map (\<lambda>point.
            \<lparr> lat = lat point,
              lon = lon point,
              time = newDate (rounded (jadd (getTime startTime)
                       (rounded (jmul
                          (rounded (jdiv (rounded (jdiv (cumulativeDistance point) (Fin 1000)))
                                         avgSpeed))
                          (Fin 3600000))))) \<rparr>)
         points"

section \<open>processGPX\<close>

datatype error = LeafletError | RangeError | TypeError | NetworkError

text \<open>
  A \<open>trkpt\<close> element, as the two numbers \<open>parseFloat\<close> reads from its attributes
  (\<open>NaN\<close> for a missing or malformed attribute).
\<close>

record trkpt =
  latAttr :: jsnum
  lonAttr :: jsnum

text \<open>
  Lines 45-61: the \<open>forEach\<close> callback over the elements, with the variables it updates
  (\<open>points\<close>, \<open>cumulativeDistance\<close>, \<open>prevCoords\<close>) as arguments. Leaflet is not part of the
  repository: \<open>L.latLng\<close> and \<open>distanceTo\<close> are parameters, the first one may throw. An
  exception leaves \<open>forEach\<close> and \<open>processGPX\<close> at once.
\<close>

fun forEachTrkpt ::
  "(jsnum \<Rightarrow> jsnum \<Rightarrow> error + 'c) \<Rightarrow> ('c \<Rightarrow> 'c \<Rightarrow> jsnum) \<Rightarrow> trkpt list \<Rightarrow> nat \<Rightarrow>
   point list \<Rightarrow> jsnum \<Rightarrow> 'c option \<Rightarrow> error + point list" where
  "forEachTrkpt latLng distanceTo [] index points cumDist prevCoords = Inr points"
| "forEachTrkpt latLng distanceTo (pt # rest) index points cumDist prevCoords =
     (case latLng (latAttr pt) (lonAttr pt) of
        Inl e \<Rightarrow> Inl e
      | Inr currentCoords \<Rightarrow>
          (case (if 0 < index
                 then (case prevCoords of
                         None \<Rightarrow> Inl TypeError
                       | Some prev \<Rightarrow> Inr (jadd cumDist (distanceTo currentCoords prev)))
                 else Inr cumDist) of
             Inl e \<Rightarrow> Inl e
           | Inr cumDist' \<Rightarrow>
               forEachTrkpt latLng distanceTo rest (index + 1)
                 (points @ [\<lparr> lat = latAttr pt, lon = lonAttr pt, cumulativeDistance = cumDist' \<rparr>])
                 cumDist' (Some currentCoords)))"

definition processGPX ::
  "(jsnum \<Rightarrow> jsnum \<Rightarrow> error + 'c) \<Rightarrow> ('c \<Rightarrow> 'c \<Rightarrow> jsnum) \<Rightarrow> trkpt list \<Rightarrow> error + point list" where
  "processGPX latLng distanceTo trackPoints =
     forEachTrkpt latLng distanceTo trackPoints 0 [] (Fin 0) None"

text \<open>
  Leaflet's documented constructor, for statements that need a concrete one: it throws on
  a \<open>NaN\<close> coordinate and keeps the pair otherwise.
\<close>

definition leafletLatLng :: "jsnum \<Rightarrow> jsnum \<Rightarrow> error + (jsnum \<times> jsnum)" where
  "leafletLatLng la lo = (if la = NaN \<or> lo = NaN then Inl LeafletError else Inr (la, lo))"

section \<open>fetchWeatherData\<close>

text \<open>
  Line 158: \<open>formatDate\<close>. \<open>toISOString\<close> throws a \<open>RangeError\<close> on an Invalid Date;
  otherwise the string names the UTC day, kept here as the day's number since the epoch.
\<close>

fun formatDate :: "date \<Rightarrow> error + int" where
  "formatDate (Date (Fin t)) = Inr \<lfloor>t / 86400000\<rfloor>"
| "formatDate (Date v) = Inl RangeError"

text \<open>The query of the URL built at lines 133-135.\<close>

record request =
  latitude :: jsnum
  longitude :: jsnum
  start_date :: int
  end_date :: int

text \<open>The \<open>hourly\<close> object of a response: three arrays indexed by the hour.\<close>

record hourly =
  temperature_2m :: "jsnum list"
  windspeed_10m :: "jsnum list"
  weathercode :: "jsnum list"

record weatherPoint = timedPoint +
  temp :: "jsnum option"
  wind :: "jsnum option"
  code :: "jsnum option"

record marker =
  markerLat :: jsnum
  markerLon :: jsnum
  markerTemp :: "jsnum option"

text \<open>
  What a run of \<open>fetchWeatherData\<close> leaves behind: the requests sent, in the order sent;
  the array \<open>weatherData\<close>, which is handed to \<open>displayWeather\<close> at the end; the global
  \<open>markers\<close>; and what \<open>console.error\<close> received.
\<close>

record weatherRun =
  requests :: "request list"
  weatherData :: "weatherPoint list"
  markers :: "marker list"
  consoleErrors :: "error list"

definition requestFor :: "timedPoint \<Rightarrow> error + request" where
  "requestFor point =
     (case formatDate (time point) of
        Inl e \<Rightarrow> Inl e
      | Inr day \<Rightarrow>
          Inr \<lparr> latitude = lat point, longitude = lon point, start_date = day, end_date = day \<rparr>)"

text \<open>Lines 141-146: the object pushed for a point and the \<open>hourly\<close> data of its response.\<close>

definition annotated :: "(date \<Rightarrow> nat) \<Rightarrow> timedPoint \<Rightarrow> hourly \<Rightarrow> weatherPoint" where
  "annotated getHours point h =
     (let hourIndex = int (getHours (time point)) in
      \<lparr> lat = lat point, lon = lon point, time = time point,
        temp = elemAt (temperature_2m h) hourIndex,
        wind = elemAt (windspeed_10m h) hourIndex,
        code = elemAt (weathercode h) hourIndex \<rparr>)"

text \<open>
  Lines 162-170: \<open>addMarker\<close>. \<open>L.marker([point.lat, point.lon], {icon}).addTo(map)\<close> is
  Leaflet's and a parameter, \<open>newMarker\<close>; it may throw (the constructor refuses a \<open>NaN\<close>
  coordinate). When it returns, the marker is pushed on the global \<open>markers\<close>, here
  the argument \<open>placed\<close>; \<open>reading\<close> is the parameter \<open>temp\<close>.
\<close>

definition addMarker ::
  "(jsnum \<Rightarrow> jsnum \<Rightarrow> jsnum option \<Rightarrow> error + marker) \<Rightarrow> marker list \<Rightarrow> timedPoint \<Rightarrow>
   jsnum option \<Rightarrow> error + marker list" where
  "addMarker newMarker placed point reading =
     (case newMarker (lat point) (lon point) reading of
        Inl e \<Rightarrow> Inl e
      | Inr m \<Rightarrow> Inr (placed @ [m]))"

text \<open>
  Lines 131-152: the body of the \<open>for\<close> loop for one point. \<open>lookup\<close> stands for
  \<open>fetch\<close> followed by \<open>response.json()\<close> and gives the \<open>hourly\<close> object of the reply or
  the error thrown on the way (a reply without \<open>hourly\<close> throws at line 143, before the
  push); \<open>getHours\<close> is the host's local-time clock reading. Both are parameters. The
  request is built first and \<open>formatDate\<close> may throw there, before \<open>fetch\<close> is called;
  \<open>addMarker\<close> comes after the push and may throw too. Every exception ends in the
  \<open>catch\<close>, which logs it and lets the loop go on.
\<close>

definition fetchPoint ::
  "(request \<Rightarrow> error + hourly) \<Rightarrow> (date \<Rightarrow> nat) \<Rightarrow>
   (jsnum \<Rightarrow> jsnum \<Rightarrow> jsnum option \<Rightarrow> error + marker) \<Rightarrow> weatherRun \<Rightarrow> timedPoint \<Rightarrow> weatherRun" where
  "fetchPoint lookup getHours newMarker run point =
     (case requestFor point of
        Inl e \<Rightarrow> run\<lparr> consoleErrors := consoleErrors run @ [e] \<rparr>
      | Inr req \<Rightarrow>
          (let sent = run\<lparr> requests := requests run @ [req] \<rparr> in
           case lookup req of
             Inl e \<Rightarrow> sent\<lparr> consoleErrors := consoleErrors sent @ [e] \<rparr>
           | Inr h \<Rightarrow>
               (let wp = annotated getHours point h;
                    pushed = sent\<lparr> weatherData := weatherData sent @ [wp] \<rparr> in
                case addMarker newMarker (markers pushed) point (temp wp) of
                  Inl e \<Rightarrow> pushed\<lparr> consoleErrors := consoleErrors pushed @ [e] \<rparr>
                | Inr ms \<Rightarrow> pushed\<lparr> markers := ms \<rparr>)))"

text \<open>
  Lines 126-156: \<open>clearMarkers()\<close> empties the global \<open>markers\<close> (removing a marker that
  was placed is taken to succeed), \<open>weatherData\<close> starts empty, then the points are taken
  one after the other. The \<open>weatherData\<close> of the result is the argument of
  \<open>displayWeather\<close>.
\<close>

definition fetchWeatherData ::
  "(request \<Rightarrow> error + hourly) \<Rightarrow> (date \<Rightarrow> nat) \<Rightarrow>
   (jsnum \<Rightarrow> jsnum \<Rightarrow> jsnum option \<Rightarrow> error + marker) \<Rightarrow> timedPoint list \<Rightarrow> weatherRun" where
  "fetchWeatherData lookup getHours newMarker points =
     foldl (fetchPoint lookup getHours newMarker)
       \<lparr> requests = [], weatherData = [], markers = [], consoleErrors = [] \<rparr> points"

section \<open>What the annotator is expected to do\<close>

text \<open>
  The lookup for one point, read off the specification and written without the
  functions above: the point's date must be a valid one, the collaborator is asked for
  that day at the point's position, and a reply becomes the point with the three
  readings of its hour.
\<close>

definition outcome ::
  "(request \<Rightarrow> error + hourly) \<Rightarrow> (date \<Rightarrow> nat) \<Rightarrow> timedPoint \<Rightarrow> error + weatherPoint" where
  "outcome lookup getHours point =
     (case getTime (time point) of
        Fin t \<Rightarrow>
          (case lookup \<lparr> latitude = lat point, longitude = lon point,
                         start_date = \<lfloor>t / 86400000\<rfloor>, end_date = \<lfloor>t / 86400000\<rfloor> \<rparr> of
             Inl e \<Rightarrow> Inl e
           | Inr h \<Rightarrow>
               Inr \<lparr> lat = lat point, lon = lon point, time = time point,
                     temp = elemAt (temperature_2m h) (int (getHours (time point))),
                     wind = elemAt (windspeed_10m h) (int (getHours (time point))),
                     code = elemAt (weathercode h) (int (getHours (time point))) \<rparr>)
      | v \<Rightarrow> Inl RangeError)"

text \<open>The request expected for a point: none when its date cannot be formatted.\<close>

definition expectedRequest :: "timedPoint \<Rightarrow> request option" where
  "expectedRequest point =
     (case getTime (time point) of
        Fin t \<Rightarrow> Some \<lparr> latitude = lat point, longitude = lon point,
                        start_date = \<lfloor>t / 86400000\<rfloor>, end_date = \<lfloor>t / 86400000\<rfloor> \<rparr>
      | v \<Rightarrow> None)"

text \<open>What the \<open>catch\<close> logs for one point: the failure of its lookup, or of its marker.\<close>

definition logged ::
  "(request \<Rightarrow> error + hourly) \<Rightarrow> (date \<Rightarrow> nat) \<Rightarrow>
   (jsnum \<Rightarrow> jsnum \<Rightarrow> jsnum option \<Rightarrow> error + marker) \<Rightarrow> timedPoint \<Rightarrow> error list" where
  "logged lookup getHours newMarker point =
     (case outcome lookup getHours point of
        Inl e \<Rightarrow> [e]
      | Inr wp \<Rightarrow>
          (case newMarker (lat point) (lon point) (temp wp) of Inl e \<Rightarrow> [e] | Inr m \<Rightarrow> []))"

text \<open>The results and the errors of a list of outcomes, each in the order of the list.\<close>

fun successes :: "('e + 'a) list \<Rightarrow> 'a list" where
  "successes [] = []"
| "successes (Inr x # rs) = x # successes rs"
| "successes (Inl e # rs) = successes rs"

fun failures :: "('e + 'a) list \<Rightarrow> 'e list" where
  "failures [] = []"
| "failures (Inr x # rs) = failures rs"
| "failures (Inl e # rs) = e # failures rs"

text \<open>The properties a weather point has from the spread \<open>...point\<close>.\<close>

definition timedPart :: "weatherPoint \<Rightarrow> timedPoint" where
  "timedPart w = \<lparr> lat = lat w, lon = lon w, time = time w \<rparr>"

definition validTime :: "timedPoint \<Rightarrow> bool" where
  "validTime point = isFinite (getTime (time point))"

section \<open>Reference values\<close>

text \<open>
  The arrival time the specification asks for, in milliseconds: the start plus the
  distance in kilometres divided by the speed in km/h, as hours.
\<close>

definition projectedMillis :: "real \<Rightarrow> real \<Rightarrow> real \<Rightarrow> real" where
  "projectedMillis s v c = s + c / 1000 / v * 3600000"

text \<open>Concrete collaborators and inputs for the scenarios below.\<close>

definition noDistance :: "'c \<Rightarrow> 'c \<Rightarrow> jsnum" where
  "noDistance a b = NaN"

definition threePointTrack :: "point list" where
  "threePointTrack =
     [\<lparr>lat = Fin 50, lon = Fin 8, cumulativeDistance = Fin 0\<rparr>,
      \<lparr>lat = Fin 51, lon = Fin 9, cumulativeDistance = Fin 500\<rparr>,
      \<lparr>lat = Fin 58, lon = Fin 16, cumulativeDistance = Fin 1200\<rparr>]"

definition fivePoints :: "timedPoint list" where
  "fivePoints =
     [\<lparr>lat = Fin 0, lon = Fin 8, time = Date (Fin 0)\<rparr>,
      \<lparr>lat = Fin 1, lon = Fin 8, time = Date (Fin 600000)\<rparr>,
      \<lparr>lat = Fin 2, lon = Fin 8, time = Date (Fin 1200000)\<rparr>,
      \<lparr>lat = Fin 3, lon = Fin 8, time = Date (Fin 1800000)\<rparr>,
      \<lparr>lat = Fin 4, lon = Fin 8, time = Date (Fin 2400000)\<rparr>]"

definition failsAtTwo :: "request \<Rightarrow> error + hourly" where
  "failsAtTwo req =
     (if latitude req = Fin 2 then Inl NetworkError
      else Inr \<lparr> temperature_2m = [Fin 11], windspeed_10m = [Fin 3], weathercode = [Fin 0] \<rparr>)"

definition midnight :: "date \<Rightarrow> nat" where
  "midnight d = 0"

text \<open>Leaflet's marker for closed statements: it throws on a \<open>NaN\<close> coordinate.\<close>

definition leafletMarker :: "jsnum \<Rightarrow> jsnum \<Rightarrow> jsnum option \<Rightarrow> error + marker" where
  "leafletMarker la lo t =
     (if la = NaN \<or> lo = NaN then Inl LeafletError
      else Inr \<lparr> markerLat = la, markerLon = lo, markerTemp = t \<rparr>)"

section \<open>Facts about the numbers\<close>

lemma jsub_Fin [simp]: "jsub (Fin x) (Fin y) = Fin (x - y)"
  by (simp add: jsub_def)

lemma isFinite_D: "isFinite v \<Longrightarrow> \<exists>r. v = Fin r"
  by (cases v) auto

lemma jeq_Fin_D: "jeq v (Fin c) \<Longrightarrow> v = Fin c"
  by (cases v) auto

lemma jlt_Fin_D: "jlt (Fin a) v \<Longrightarrow> v = PInf \<or> (\<exists>d. v = Fin d \<and> a < d)"
  by (cases v) auto

lemma toInteger_close: "\<bar>of_int (toInteger x) - x\<bar> < 1"
  unfolding toInteger_def by (simp; linarith)

section \<open>find and indexOf\<close>

lemma find_props: "List.find P xs = Some x \<Longrightarrow> P x \<and> x \<in> set xs"
  by (induction xs) (auto split: if_splits)

lemma indexOf_nonneg_iff: "0 \<le> indexOf xs y \<longleftrightarrow> y \<in> set xs"
  by (induction xs) (auto simp: Let_def)

lemma indexOf_less_length: "y \<in> set xs \<Longrightarrow> indexOf xs y < int (length xs)"
  by (induction xs) (auto simp: Let_def)

text \<open>
  \<open>find\<close> returns the first element that satisfies the predicate, so the element that
  \<open>indexOf\<close> places before it fails the predicate, whether found by identity or content.
\<close>

lemma indexOf_find:
  "List.find P xs = Some x \<Longrightarrow> elemAt xs (indexOf xs x - 1) = Some y \<Longrightarrow> \<not> P y \<and> y \<in> set xs"
proof (induction xs arbitrary: y)
  case Nil
  then show ?case by simp
next
  case (Cons a xs)
  show ?case
  proof (cases "P a")
    case True
    with Cons.prems show ?thesis by (simp add: elemAt_def)
  next
    case False
    with Cons.prems have f: "List.find P xs = Some x" by simp
    from find_props[OF f] have px: "P x" and xin: "x \<in> set xs" by auto
    from False px have ne: "a \<noteq> x" by auto
    from xin have i0: "0 \<le> indexOf xs x" by (simp add: indexOf_nonneg_iff)
    show ?thesis
    proof (cases "indexOf xs x = 0")
      case True
      with Cons.prems ne False show ?thesis by (simp add: elemAt_def Let_def)
    next
      case nz: False
      with i0 have pos: "0 < indexOf xs x" by simp
      from Cons.prems(2) ne pos have "elemAt xs (indexOf xs x - 1) = Some y"
        by (auto simp: elemAt_def Let_def nat_diff_distrib split: if_splits)
      from Cons.IH[OF f this] show ?thesis by simp
    qed
  qed
qed

lemma indexOf_find_first:
  "List.find P xs = Some x \<Longrightarrow> elemAt xs (indexOf xs x - 1) = None \<Longrightarrow> x = hd xs"
proof (induction xs)
  case Nil
  then show ?case by simp
next
  case (Cons a xs)
  show ?case
  proof (cases "P a")
    case True
    with Cons.prems show ?thesis by simp
  next
    case False
    with Cons.prems have f: "List.find P xs = Some x" by simp
    from find_props[OF f] have px: "P x" and xin: "x \<in> set xs" by auto
    from False px have ne: "a \<noteq> x" by auto
    from xin have "0 \<le> indexOf xs x" "indexOf xs x < int (length xs)"
      by (simp_all add: indexOf_nonneg_iff indexOf_less_length)
    with Cons.prems(2) ne show ?thesis
      by (auto simp: elemAt_def Let_def split: if_splits)
  qed
qed

section \<open>One iteration of the sampling loop\<close>

lemma cd_interpolate [simp]: "cumulativeDistance (interpolate a b ci) = ci"
  by (simp add: interpolate_def Let_def)

text \<open>
  The pushed point carries the target offset, unless it is the first track point pushed
  as it is, which then lies at or beyond the offset.
\<close>

lemma cd_sampleAt:
  assumes "List.find (\<lambda>p. jle (Fin c) (cumulativeDistance p)) ps = Some x"
  shows "cumulativeDistance (sampleAt ps x (Fin c)) = Fin c \<or>
         (sampleAt ps x (Fin c) = hd ps \<and> jle (Fin c) (cumulativeDistance (hd ps)))"
proof (cases "elemAt ps (indexOf ps x - 1)")
  case None
  from indexOf_find_first[OF assms None] find_props[OF assms] None show ?thesis
    by (simp add: sampleAt_def)
next
  case (Some y)
  then show ?thesis
    by (auto simp: sampleAt_def dest: jeq_Fin_D)
qed

text \<open>
  Interpolation never divides by zero: the point before the located one lies strictly
  below the offset, the located one strictly above it.
\<close>

lemma interpolation_ratio:
  assumes f: "List.find (\<lambda>p. jle (Fin c) (cumulativeDistance p)) ps = Some x"
    and prev: "elemAt ps (indexOf ps x - 1) = Some y"
    and fin: "cumulativeDistance x = Fin b" "cumulativeDistance y = Fin a"
    and ne: "\<not> jeq (cumulativeDistance x) (Fin c)"
  shows "a < c \<and> c < b \<and>
         sampleAt ps x (Fin c) =
           \<lparr> lat = jadd (lat y) (jmul (jsub (lat x) (lat y)) (Fin ((c - a) / (b - a)))),
             lon = jadd (lon y) (jmul (jsub (lon x) (lon y)) (Fin ((c - a) / (b - a)))),
             cumulativeDistance = Fin c \<rparr>"
proof -
  from indexOf_find[OF f prev] fin have "a < c" by simp
  moreover from find_props[OF f] fin ne have "c < b" by auto
  ultimately show ?thesis
    using prev fin ne by (simp add: sampleAt_def interpolate_def Let_def)
qed

section \<open>The sampling loop returns\<close>

text \<open>
  Total correctness of the \<open>while\<close> loop for a finite total distance and a finite positive
  interval: it returns, and any invariant that each iteration keeps holds of the result.
  The number of iterations left is bounded by a multiple of the interval covering the
  remaining distance.
\<close>

lemma sampleLoop_rule:
  assumes d: "0 < d"
    and init: "I sampled c"
    and step: "\<And>s c x. I s c \<Longrightarrow> c \<le> t \<Longrightarrow>
                 List.find (\<lambda>p. jle (Fin c) (cumulativeDistance p)) ps = Some x \<Longrightarrow>
                 I (s @ [sampleAt ps x (Fin c)]) (c + d)"
  shows "\<exists>out c'. sampleLoop ps (Fin d) (Fin t) sampled (Fin c) = Some out \<and> I out c'"
proof -
  obtain n :: nat where n: "t - c < real n * d"
    using d ex_less_of_nat_mult by blast
  from n init show ?thesis
  proof (induction n arbitrary: sampled c)
    case 0
    then have "t < c" by simp
    then have "sampleLoop ps (Fin d) (Fin t) sampled (Fin c) = Some sampled"
      by (subst sampleLoop.simps) simp
    with 0 show ?case by blast
  next
    case (Suc n)
    show ?case
    proof (cases "c \<le> t")
      case False
      then have "sampleLoop ps (Fin d) (Fin t) sampled (Fin c) = Some sampled"
        by (subst sampleLoop.simps) simp
      with Suc.prems show ?thesis by blast
    next
      case True
      show ?thesis
      proof (cases "List.find (\<lambda>p. jle (Fin c) (cumulativeDistance p)) ps")
        case None
        with True have "sampleLoop ps (Fin d) (Fin t) sampled (Fin c) = Some sampled"
          by (subst sampleLoop.simps) simp
        with Suc.prems show ?thesis by blast
      next
        case (Some x)
        have unfold: "sampleLoop ps (Fin d) (Fin t) sampled (Fin c) =
              sampleLoop ps (Fin d) (Fin t) (sampled @ [sampleAt ps x (Fin c)]) (Fin (c + d))"
          using True Some by (subst sampleLoop.simps) simp
        have "t - (c + d) < real n * d" using Suc.prems(1) by (simp add: algebra_simps)
        moreover have "I (sampled @ [sampleAt ps x (Fin c)]) (c + d)"
          using step[OF Suc.prems(2) True Some] .
        ultimately show ?thesis using Suc.IH unfold by simp
      qed
    qed
  qed
qed

text \<open>With an infinite interval the loop runs at most once.\<close>

lemma sampleLoop_PInf:
  "sampleLoop ps PInf (Fin t) sampled (Fin c) =
     Some (if c \<le> t then
             (case List.find (\<lambda>p. jle (Fin c) (cumulativeDistance p)) ps of
                None \<Rightarrow> sampled | Some x \<Rightarrow> sampled @ [sampleAt ps x (Fin c)])
           else sampled)"
  apply (subst sampleLoop.simps)
  apply (auto split: option.splits)
  apply (subst sampleLoop.simps)
  apply simp
  done

text \<open>A total distance of \<open>+Infinity\<close> keeps the loop running: no result is ever returned.\<close>

lemma sampleLoop_diverges_aux:
  assumes run: "sampleLoop ps iv tot sampled ci = Some out"
  shows "\<not> (ps \<noteq> [] \<and> cumulativeDistance (last ps) = PInf \<and> tot = PInf \<and> jlt (Fin 0) iv \<and>
            ci \<noteq> NaN \<and> ci \<noteq> NInf)"
proof (rule sampleLoop.raw_induct[where P = "\<lambda>ps iv tot sampled ci out.
          \<not> (ps \<noteq> [] \<and> cumulativeDistance (last ps) = PInf \<and> tot = PInf \<and> jlt (Fin 0) iv \<and>
             ci \<noteq> NaN \<and> ci \<noteq> NInf)", OF _ run])
  fix loop ps iv tot sampled ci and out :: "point list"
  assume IH: "\<And>a b c d e y. loop a b c d e = Some y \<Longrightarrow>
          \<not> (a \<noteq> [] \<and> cumulativeDistance (last a) = PInf \<and> c = PInf \<and> jlt (Fin 0) b \<and>
             e \<noteq> NaN \<and> e \<noteq> NInf)"
    and body: "(if jle ci tot
      then case List.find (\<lambda>p. jle ci (cumulativeDistance p)) ps of
           None \<Rightarrow> Some sampled
           | Some nextPoint \<Rightarrow>
               loop ps iv tot (sampled @ [sampleAt ps nextPoint ci]) (jadd ci iv)
      else Some sampled) = Some out"
  show "\<not> (ps \<noteq> [] \<and> cumulativeDistance (last ps) = PInf \<and> tot = PInf \<and> jlt (Fin 0) iv \<and>
            ci \<noteq> NaN \<and> ci \<noteq> NInf)"
  proof
    assume a: "ps \<noteq> [] \<and> cumulativeDistance (last ps) = PInf \<and> tot = PInf \<and> jlt (Fin 0) iv \<and>
            ci \<noteq> NaN \<and> ci \<noteq> NInf"
    then have le: "jle ci PInf" by (cases ci) auto
    with a have "\<exists>p. p \<in> set ps \<and> jle ci (cumulativeDistance p)"
      using last_in_set by metis
    then obtain x where x: "List.find (\<lambda>p. jle ci (cumulativeDistance p)) ps = Some x"
      by (cases "List.find (\<lambda>p. jle ci (cumulativeDistance p)) ps") (auto simp: find_None_iff)
    from a have next_ok: "jadd ci iv \<noteq> NaN \<and> jadd ci iv \<noteq> NInf"
      using jlt_Fin_D[of 0 iv] by (cases ci) auto
    from body a le x have "loop ps iv tot (sampled @ [sampleAt ps x ci]) (jadd ci iv) = Some out"
      by simp
    from IH[OF this] a next_ok show False by simp
  qed
qed

lemma sampleLoop_diverges:
  assumes "ps \<noteq> []" "cumulativeDistance (last ps) = PInf" "jlt (Fin 0) iv"
  shows "sampleLoop ps iv PInf [] (Fin 0) = None"
proof (cases "sampleLoop ps iv PInf [] (Fin 0)")
  case None
  then show ?thesis .
next
  case (Some out)
  from sampleLoop_diverges_aux[OF Some] assms show ?thesis by simp
qed


section \<open>Properties of samplePointsByDistance\<close>

lemma hd_le_last:
  assumes "ps \<noteq> []" "finiteDistances ps" "nonDecreasing ps"
  shows "jle (cumulativeDistance (hd ps)) (cumulativeDistance (last ps))"
proof (cases "length ps = 1")
  case True
  then obtain p where "ps = [p]" by (cases ps) auto
  with assms(2) show ?thesis
    by (auto simp: finiteDistances_def dest: isFinite_D)
next
  case False
  with assms(1) have len: "0 < length ps - 1" "length ps - 1 < length ps"
    by (cases ps; simp)+
  from assms(3) len
  have "jle (cumulativeDistance (ps ! 0)) (cumulativeDistance (ps ! (length ps - 1)))"
    unfolding nonDecreasing_def by (simp add: sorted_wrt_iff_nth_less)
  with assms(1) show ?thesis by (simp add: hd_conv_nth last_conv_nth)
qed

lemma includeFinal_reaches:
  assumes ps: "ps \<noteq> []" and t: "cumulativeDistance (last ps) = Fin t"
    and bound: "\<forall>q\<in>set out. \<exists>r. cumulativeDistance q = Fin r \<and> r \<le> t"
  shows "includeFinal ps out \<noteq> [] \<and>
         (\<exists>q\<in>set (includeFinal ps out). cumulativeDistance q = cumulativeDistance (last ps))"
proof (cases "out = [] \<or> jlt (cumulativeDistance (last out)) (cumulativeDistance (last ps))")
  case True
  then show ?thesis by (auto simp: includeFinal_def Let_def)
next
  case False
  then have ne: "out \<noteq> []" and nlt: "\<not> jlt (cumulativeDistance (last out)) (Fin t)"
    using t by auto
  from ne bound obtain r where r: "cumulativeDistance (last out) = Fin r" "r \<le> t"
    using last_in_set by blast
  with nlt have "r = t" by simp
  with r t ne False show ?thesis
    by (auto simp: includeFinal_def Let_def intro!: bexI[of _ "last out"])
qed

lemma strictlyIncreasing_snoc:
  "strictlyIncreasing (s @ [p]) \<longleftrightarrow>
     strictlyIncreasing s \<and> (\<forall>q\<in>set s. jlt (cumulativeDistance q) (cumulativeDistance p))"
  by (auto simp: strictlyIncreasing_def sorted_wrt_append)

lemma finite_last:
  "ps \<noteq> [] \<Longrightarrow> finiteDistances ps \<Longrightarrow> \<exists>t. cumulativeDistance (last ps) = Fin t"
  using isFinite_D by (fastforce simp: finiteDistances_def list_all_iff)

lemma threePointTrack_ok:
  "threePointTrack \<noteq> []" "startsAtZero threePointTrack" "finiteDistances threePointTrack"
  "nonDecreasing threePointTrack" "cumulativeDistance (last threePointTrack) = Fin 1200"
  by (simp_all add: threePointTrack_def startsAtZero_def finiteDistances_def nonDecreasing_def)

text \<open>
  C4, as amended. For every track that starts at cumulative distance 0 and has a finite
  total distance \<open>t\<close>, and every interval strictly greater than \<open>t\<close> (\<open>+Infinity\<close>
  included): when \<open>t\<close> is positive, sampling returns exactly the first and the last
  point of the track; when \<open>t\<close> is 0 (a single point, or points that never move) it
  returns the first point alone.
\<close>

theorem sample_interval_beyond_total:
  assumes zero: "startsAtZero points"
    and t: "cumulativeDistance (last points) = Fin t" and pos: "0 \<le> t"
    and beyond: "jlt (Fin t) intervalMeters"
  shows "samplePointsByDistance points intervalMeters =
           Some (if 0 < t then [hd points, last points] else [hd points])"
proof -
  from zero obtain p rest where ps: "points = p # rest" and p0: "cumulativeDistance p = Fin 0"
    by (auto simp: startsAtZero_def split: list.splits)
  have guard: "\<not> jle intervalMeters (Fin 0)"
    and exit: "\<not> jle (jadd (Fin 0) intervalMeters) (Fin t)"
    using jlt_Fin_D[OF beyond] pos by auto
  have first: "sampleAt points p (Fin 0) = p"
    by (simp add: ps sampleAt_def elemAt_def)
  have "sampleLoop points intervalMeters (Fin t) [] (Fin 0) =
        sampleLoop points intervalMeters (Fin t) [p] (jadd (Fin 0) intervalMeters)"
    using pos first by (subst sampleLoop.simps) (simp add: ps p0)
  also have "\<dots> = Some [p]"
    using exit by (subst sampleLoop.simps) simp
  finally have loop: "sampleLoop points intervalMeters (Fin t) [] (Fin 0) = Some [p]" .
  from t p0 have "includeFinal points [p] = (if 0 < t then [p, last points] else [p])"
    by (simp add: includeFinal_def Let_def)
  with loop guard t ps show ?thesis
    by (simp add: samplePointsByDistance_def Let_def)
qed

theorem sample_interval_beyond_total_witness:
  "startsAtZero threePointTrack \<and> cumulativeDistance (last threePointTrack) = Fin 1200 \<and>
   jlt (Fin 1200) (Fin 2000) \<and>
   samplePointsByDistance threePointTrack (Fin 2000) =
     Some [\<lparr>lat = Fin 50, lon = Fin 8, cumulativeDistance = Fin 0\<rparr>,
           \<lparr>lat = Fin 58, lon = Fin 16, cumulativeDistance = Fin 1200\<rparr>]"
proof -
  have b: "jlt (Fin 1200) (Fin 2000)" and p: "(0::real) \<le> 1200" by simp_all
  from sample_interval_beyond_total[OF threePointTrack_ok(2) threePointTrack_ok(5) p b]
  have "samplePointsByDistance threePointTrack (Fin 2000) =
          Some [hd threePointTrack, last threePointTrack]" by simp
  then show ?thesis
    using threePointTrack_ok b by (simp add: threePointTrack_def)
qed

text \<open>A track of one point, sampled at an interval beyond its total distance 0, gives one point.\<close>

theorem sample_single_point_counterexample:
  "samplePointsByDistance [\<lparr>lat = Fin 50, lon = Fin 8, cumulativeDistance = Fin 0\<rparr>] (Fin 1000)
     = Some [\<lparr>lat = Fin 50, lon = Fin 8, cumulativeDistance = Fin 0\<rparr>]"
  by (simp add: samplePointsByDistance_def sampleLoop.simps sampleAt_def elemAt_def
      includeFinal_def Let_def)

text \<open>
  C5, as amended. Whenever the track is empty or the interval is at most 0 (zero, a
  negative number or \<open>-Infinity\<close>), sampling returns the track's points unchanged and does
  not fail. (\<open>NaN\<close> is not at most 0: the guard lets it through to the loop.)
\<close>

theorem sample_identity_fallback:
  assumes "points = [] \<or> jle intervalMeters (Fin 0)"
  shows "samplePointsByDistance points intervalMeters = Some points"
  using assms by (auto simp: samplePointsByDistance_def)

theorem sample_identity_fallback_witness:
  "jle (Fin 0) (Fin 0) \<and> jle (Fin (- 5)) (Fin 0) \<and> jle NInf (Fin 0) \<and>
   samplePointsByDistance threePointTrack (Fin 0) = Some threePointTrack \<and>
   samplePointsByDistance threePointTrack (Fin (- 5)) = Some threePointTrack \<and>
   samplePointsByDistance threePointTrack NInf = Some threePointTrack \<and>
   samplePointsByDistance [] (Fin 1000) = Some []"
  using sample_identity_fallback[of threePointTrack "Fin 0"]
    sample_identity_fallback[of threePointTrack "Fin (- 5)"]
    sample_identity_fallback[of threePointTrack NInf]
    sample_identity_fallback[of "[]" "Fin 1000"]
  by simp

text \<open>With a \<open>NaN\<close> interval the three-point track comes back as its first and last point.\<close>

theorem sample_NaN_interval_counterexample:
  "samplePointsByDistance threePointTrack NaN =
     Some [\<lparr>lat = Fin 50, lon = Fin 8, cumulativeDistance = Fin 0\<rparr>,
           \<lparr>lat = Fin 58, lon = Fin 16, cumulativeDistance = Fin 1200\<rparr>] \<and>
   samplePointsByDistance threePointTrack NaN \<noteq> Some threePointTrack"
  by (simp add: threePointTrack_def samplePointsByDistance_def sampleLoop.simps sampleAt_def
      elemAt_def includeFinal_def Let_def)

text \<open>
  C6. For every non-empty track whose cumulative distances are finite and never decrease,
  and every interval greater than 0 (\<open>+Infinity\<close> included), sampling returns a result,
  the result is not empty and one of its points has the cumulative distance of the
  track's last point.
\<close>

theorem sample_includes_endpoint:
  assumes ps: "points \<noteq> []" and fin: "finiteDistances points" and mono: "nonDecreasing points"
    and pos: "jlt (Fin 0) intervalMeters"
  shows "\<exists>sampled. samplePointsByDistance points intervalMeters = Some sampled \<and> sampled \<noteq> [] \<and>
           (\<exists>q\<in>set sampled. cumulativeDistance q = cumulativeDistance (last points))"
proof -
  from finite_last[OF ps fin] obtain t where t: "cumulativeDistance (last points) = Fin t" ..
  from ps fin obtain h where h0: "cumulativeDistance (hd points) = Fin h"
    using isFinite_D by (fastforce simp: finiteDistances_def list_all_iff)
  with hd_le_last[OF ps fin mono] t have h: "cumulativeDistance (hd points) = Fin h" "h \<le> t"
    by auto
  define I where
    "I = (\<lambda>(s::point list) (c::real). \<forall>q\<in>set s. \<exists>r. cumulativeDistance q = Fin r \<and> r \<le> t)"
  have step: "I (s @ [sampleAt points x (Fin c)]) c'"
    if "I s c" "c \<le> t" "List.find (\<lambda>p. jle (Fin c) (cumulativeDistance p)) points = Some x"
    for s c x c'
    using cd_sampleAt[OF that(3)] that(1,2) h by (auto simp: I_def)
  have start: "I [] 0" by (simp add: I_def)
  have "\<exists>out. sampleLoop points intervalMeters (Fin t) [] (Fin 0) = Some out \<and> I out 0"
  proof -
    from jlt_Fin_D[OF pos] show ?thesis
    proof
      assume "intervalMeters = PInf"
      with start show ?thesis
        using step[of "[]" 0 _ 0] by (auto simp: sampleLoop_PInf split: option.splits)
    next
      assume "\<exists>d. intervalMeters = Fin d \<and> 0 < d"
      then obtain d where d: "intervalMeters = Fin d" "0 < d" by blast
      from sampleLoop_rule[of d I "[]" 0 t points, OF d(2) start step]
      have "\<exists>out c'. sampleLoop points (Fin d) (Fin t) [] (Fin 0) = Some out \<and> I out c'" .
      with d show ?thesis by (auto simp: I_def)
    qed
  qed
  then obtain out where out: "sampleLoop points intervalMeters (Fin t) [] (Fin 0) = Some out"
    and bound: "\<forall>q\<in>set out. \<exists>r. cumulativeDistance q = Fin r \<and> r \<le> t"
    by (auto simp: I_def)
  have guard: "\<not> jle intervalMeters (Fin 0)"
    using jlt_Fin_D[OF pos] by auto
  from ps guard t out
  have "samplePointsByDistance points intervalMeters = Some (includeFinal points out)"
    by (simp add: samplePointsByDistance_def Let_def)
  with includeFinal_reaches[OF ps t bound] show ?thesis by simp
qed

theorem sample_includes_endpoint_witness:
  "threePointTrack \<noteq> [] \<and> finiteDistances threePointTrack \<and> nonDecreasing threePointTrack \<and>
   jlt (Fin 0) (Fin 700) \<and>
   (\<exists>sampled. samplePointsByDistance threePointTrack (Fin 700) = Some sampled \<and> sampled \<noteq> [] \<and>
      (\<exists>q\<in>set sampled. cumulativeDistance q = Fin 1200))"
proof -
  have b: "jlt (Fin 0) (Fin 700)" by simp
  from sample_includes_endpoint[OF threePointTrack_ok(1) threePointTrack_ok(3)
      threePointTrack_ok(4) b]
  show ?thesis using threePointTrack_ok b by simp
qed

text \<open>
  C7. A track of three points at cumulative distances 0, 500 and 1200 metres, sampled
  every 1000 metres, gives three points: the first track point as it is, a point at 1000
  whose coordinates are interpolated between the second and third track points with
  ratio 5/7, and the last track point as it is.
\<close>

theorem sample_three_point_scenario:
  "samplePointsByDistance
     [\<lparr>lat = a0, lon = b0, cumulativeDistance = Fin 0\<rparr>,
      \<lparr>lat = a1, lon = b1, cumulativeDistance = Fin 500\<rparr>,
      \<lparr>lat = a2, lon = b2, cumulativeDistance = Fin 1200\<rparr>] (Fin 1000)
   = Some
     [\<lparr>lat = a0, lon = b0, cumulativeDistance = Fin 0\<rparr>,
      \<lparr>lat = jadd a1 (jmul (jsub a2 a1) (Fin ((1000 - 500) / (1200 - 500)))),
       lon = jadd b1 (jmul (jsub b2 b1) (Fin ((1000 - 500) / (1200 - 500)))),
       cumulativeDistance = Fin 1000\<rparr>,
      \<lparr>lat = a2, lon = b2, cumulativeDistance = Fin 1200\<rparr>] \<and>
   (1000 - 500) / (1200 - 500) = (5 / 7 :: real)"
  by (simp add: samplePointsByDistance_def sampleLoop.simps sampleAt_def elemAt_def
      interpolate_def includeFinal_def Let_def)

theorem sample_three_point_scenario_witness:
  "samplePointsByDistance threePointTrack (Fin 1000)
   = Some
     [\<lparr>lat = Fin 50, lon = Fin 8, cumulativeDistance = Fin 0\<rparr>,
      \<lparr>lat = Fin 56, lon = Fin 14, cumulativeDistance = Fin 1000\<rparr>,
      \<lparr>lat = Fin 58, lon = Fin 16, cumulativeDistance = Fin 1200\<rparr>]"
  using sample_three_point_scenario[of "Fin 50" "Fin 8" "Fin 51" "Fin 9" "Fin 58" "Fin 16"]
  by (simp add: threePointTrack_def)

text \<open>
  C10. For every non-empty track (cumulative distances finite, never decreasing, the
  first one 0) and every finite interval greater than 0, sampling returns a result whose
  cumulative distances are strictly increasing: no two of its points lie at the same
  distance.
\<close>

theorem sample_strictly_increasing:
  assumes zero: "startsAtZero points" and fin: "finiteDistances points"
    and mono: "nonDecreasing points" and d: "0 < d"
  shows "\<exists>sampled. samplePointsByDistance points (Fin d) = Some sampled \<and>
           strictlyIncreasing sampled"
proof -
  from zero have ps: "points \<noteq> []" and h: "cumulativeDistance (hd points) = Fin 0"
    by (auto simp: startsAtZero_def split: list.splits)
  from finite_last[OF ps fin] obtain t where t: "cumulativeDistance (last points) = Fin t" ..
  define I where "I = (\<lambda>(s::point list) (c::real). 0 \<le> c \<and> strictlyIncreasing s \<and>
       (\<forall>q\<in>set s. \<exists>r. cumulativeDistance q = Fin r \<and> r < c \<and> r \<le> t))"
  have step: "I (s @ [sampleAt points x (Fin c)]) (c + d)"
    if inv: "I s c" and le: "c \<le> t"
      and f: "List.find (\<lambda>p. jle (Fin c) (cumulativeDistance p)) points = Some x"
    for s c x
  proof -
    from inv have c0: "0 \<le> c" by (simp add: I_def)
    from cd_sampleAt[OF f] h c0 have cd: "cumulativeDistance (sampleAt points x (Fin c)) = Fin c"
      by auto
    from inv have "\<forall>q\<in>set s. jlt (cumulativeDistance q) (Fin c)"
      by (fastforce simp: I_def)
    with inv cd have "strictlyIncreasing (s @ [sampleAt points x (Fin c)])"
      by (simp add: strictlyIncreasing_snoc I_def)
    moreover have "\<forall>q\<in>set (s @ [sampleAt points x (Fin c)]).
        \<exists>r. cumulativeDistance q = Fin r \<and> r < c + d \<and> r \<le> t"
      using inv cd le d by (fastforce simp: I_def)
    ultimately show ?thesis using c0 d by (simp add: I_def)
  qed
  have "I [] 0" by (simp add: I_def strictlyIncreasing_def)
  from sampleLoop_rule[of d I "[]" 0 t points, OF d this step]
  obtain out c' where out: "sampleLoop points (Fin d) (Fin t) [] (Fin 0) = Some out"
    and inc: "strictlyIncreasing out"
    and bound: "\<forall>q\<in>set out. \<exists>r. cumulativeDistance q = Fin r \<and> r \<le> t"
    by (fastforce simp: I_def)
  from ps d t out have res: "samplePointsByDistance points (Fin d) = Some (includeFinal points out)"
    by (simp add: samplePointsByDistance_def Let_def)
  have "strictlyIncreasing (includeFinal points out)"
  proof (cases "out = [] \<or> jlt (cumulativeDistance (last out)) (Fin t)")
    case False
    with inc t show ?thesis by (simp add: includeFinal_def Let_def)
  next
    case True
    have "\<forall>q\<in>set out. jlt (cumulativeDistance q) (Fin t)"
    proof
      fix q assume q: "q \<in> set out"
      then have ne: "out \<noteq> []" by auto
      with True have lt: "jlt (cumulativeDistance (last out)) (Fin t)" by simp
      from ne have split: "out = butlast out @ [last out]" by simp
      show "jlt (cumulativeDistance q) (Fin t)"
      proof (cases "q = last out")
        case True
        with lt show ?thesis by simp
      next
        case False
        with q split have "q \<in> set (butlast out)"
          by (metis Un_iff empty_iff insert_iff list.set(1) list.set(2) set_append)
        moreover from inc split have "\<forall>q\<in>set (butlast out).
            jlt (cumulativeDistance q) (cumulativeDistance (last out))"
          by (metis strictlyIncreasing_snoc)
        ultimately have a: "jlt (cumulativeDistance q) (cumulativeDistance (last out))" by blast
        from bound q obtain r where r: "cumulativeDistance q = Fin r" by blast
        from bound ne obtain r' where r': "cumulativeDistance (last out) = Fin r'"
          using last_in_set by blast
        from a lt r r' show ?thesis by simp
      qed
    qed
    with inc True t show ?thesis
      by (simp add: includeFinal_def Let_def strictlyIncreasing_snoc)
  qed
  with res show ?thesis by simp
qed

theorem sample_strictly_increasing_witness:
  "startsAtZero threePointTrack \<and> finiteDistances threePointTrack \<and>
   nonDecreasing threePointTrack \<and> (0::real) < 500 \<and>
   (\<exists>sampled. samplePointsByDistance threePointTrack (Fin 500) = Some sampled \<and>
      strictlyIncreasing sampled)"
proof -
  have b: "(0::real) < 500" by simp
  from sample_strictly_increasing[OF threePointTrack_ok(2) threePointTrack_ok(3)
      threePointTrack_ok(4) b]
  show ?thesis using threePointTrack_ok by simp
qed

text \<open>
  Why the first distance is asked to be 0, as \<open>processGPX\<close> makes it: on a list that
  starts at a positive distance the first point is pushed once for every offset below it.
\<close>

lemma sample_repeats_first_point:
  "\<not> startsAtZero [\<lparr>lat = Fin 50, lon = Fin 8, cumulativeDistance = Fin 25\<rparr>,
                     \<lparr>lat = Fin 51, lon = Fin 9, cumulativeDistance = Fin 30\<rparr>] \<and>
   samplePointsByDistance
     [\<lparr>lat = Fin 50, lon = Fin 8, cumulativeDistance = Fin 25\<rparr>,
      \<lparr>lat = Fin 51, lon = Fin 9, cumulativeDistance = Fin 30\<rparr>] (Fin 10)
   = Some
     [\<lparr>lat = Fin 50, lon = Fin 8, cumulativeDistance = Fin 25\<rparr>,
      \<lparr>lat = Fin 50, lon = Fin 8, cumulativeDistance = Fin 25\<rparr>,
      \<lparr>lat = Fin 50, lon = Fin 8, cumulativeDistance = Fin 25\<rparr>,
      \<lparr>lat = Fin 51, lon = Fin 9, cumulativeDistance = Fin 30\<rparr>]"
  by (simp add: startsAtZero_def samplePointsByDistance_def sampleLoop.simps sampleAt_def
      elemAt_def includeFinal_def Let_def)

text \<open>
  Why the distances are asked to be finite: on a track whose last distance is \<open>+Infinity\<close>
  the call never returns.
\<close>

lemma sample_diverges:
  assumes "ps \<noteq> []" "cumulativeDistance (last ps) = PInf" "jlt (Fin 0) iv"
  shows "samplePointsByDistance ps iv = None"
proof -
  from assms(3) have "\<not> jle iv (Fin 0)"
    using jlt_Fin_D[OF assms(3)] by auto
  with assms sampleLoop_diverges[OF assms] show ?thesis
    by (simp add: samplePointsByDistance_def Let_def)
qed

section \<open>Properties of processGPX\<close>

lemma forEachTrkpt_keeps_first:
  "forEachTrkpt latLng distanceTo pts index (p # acc) cumDist prevCoords = Inr points
     \<Longrightarrow> \<exists>rest. points = p # rest"
proof (induction pts arbitrary: index acc cumDist prevCoords)
  case Nil
  then show ?case by auto
next
  case (Cons pt pts)
  from Cons.prems show ?case
    by (auto split: sum.splits if_splits option.splits dest: Cons.IH[of _ "acc @ [x]" for x, simplified])
qed

text \<open>Every track that \<open>processGPX\<close> returns for at least one element starts at distance 0.\<close>

lemma processGPX_startsAtZero:
  assumes "processGPX latLng distanceTo (pt # pts) = Inr points"
  shows "startsAtZero points"
proof -
  from assms obtain c where
    "forEachTrkpt latLng distanceTo pts 1
       [\<lparr>lat = latAttr pt, lon = lonAttr pt, cumulativeDistance = Fin 0\<rparr>] (Fin 0) (Some c)
     = Inr points"
    by (auto simp: processGPX_def split: sum.splits)
  from forEachTrkpt_keeps_first[OF this] show ?thesis
    by (auto simp: startsAtZero_def)
qed

text \<open>
  C2, as amended. For the empty sequence of track points \<open>processGPX\<close> does not fail: it
  returns the empty list of points, whatever the Leaflet functions are.
\<close>

theorem processGPX_empty_returns_empty:
  "processGPX latLng distanceTo [] = Inr []"
  by (simp add: processGPX_def)

theorem processGPX_empty_witness:
  "processGPX leafletLatLng noDistance [] = Inr []"
  using processGPX_empty_returns_empty[of leafletLatLng noDistance] .

theorem processGPX_empty_counterexample:
  "processGPX leafletLatLng noDistance [] \<noteq> Inl LeafletError \<and>
   processGPX leafletLatLng noDistance [] \<noteq> Inl RangeError \<and>
   processGPX leafletLatLng noDistance [] \<noteq> Inl TypeError \<and>
   processGPX leafletLatLng noDistance [] \<noteq> Inl NetworkError \<and>
   processGPX leafletLatLng noDistance [] = Inr []"
  by (simp add: processGPX_def)

section \<open>Rounding to doubles: evaluation and error\<close>

text \<open>To evaluate \<open>normalize\<close> on a given number, one step at a time.\<close>

lemma normalize_numeral:
  "normalize (numeral k) m e =
     (if 2 ^ 53 \<le> m then normalize (pred_numeral k) (m / 2) (e + 1)
      else if m < 2 ^ 52 \<and> - 1074 < e then normalize (pred_numeral k) (m * 2) (e - 1)
      else e)"
  by (simp add: numeral_eq_Suc)

lemmas fl64_eval = fl64_def normalize_numeral roundEven_def Let_def power_int_minus

lemma fl64_zero [simp]: "fl64 0 = Fin 0"
  by (simp add: fl64_def roundEven_def Let_def)

lemma powi_shift_down: "m / 2 / 2 powi (e' - (e + 1)) = m / 2 powi (e' - e)" for m :: real
proof -
  have "2 powi (e' - e) = (2::real) powi (e' - (e + 1)) * 2 powi 1"
    by (subst power_int_add[symmetric]) simp_all
  then show ?thesis by simp
qed

lemma powi_shift_up: "m * 2 / 2 powi (e' - (e - 1)) = m / 2 powi (e' - e)" for m :: real
proof -
  have "(2::real) powi (e' - (e - 1)) = 2 powi ((e' - e) + 1)" by (simp add: algebra_simps)
  also have "\<dots> = 2 powi (e' - e) * 2" by (simp add: power_int_add)
  finally show ?thesis by simp
qed

lemma normalize_down:
  "j \<le> n \<Longrightarrow> 2 ^ 52 \<le> m \<Longrightarrow> m < 2 ^ 53 * 2 ^ j \<Longrightarrow>
   2 ^ 52 \<le> m / 2 powi (normalize n m e - e) \<and> m / 2 powi (normalize n m e - e) < 2 ^ 53"
proof (induction n arbitrary: j m e)
  case 0
  then show ?case by simp
next
  case (Suc n)
  show ?case
  proof (cases "2 ^ 53 \<le> m")
    case False
    with Suc.prems show ?thesis by simp
  next
    case True
    with Suc.prems(3) have "j \<noteq> 0" by (cases j) auto
    then obtain j' where j: "j = Suc j'" by (cases j) auto
    with Suc.prems have a: "j' \<le> n" "2 ^ 52 \<le> m / 2" "m / 2 < 2 ^ 53 * 2 ^ j'"
      using True by auto
    have eq: "normalize (Suc n) m e = normalize n (m / 2) (e + 1)" using True by simp
    from Suc.IH[OF a, of "e + 1"] show ?thesis
      unfolding eq by (simp only: powi_shift_down)
  qed
qed

lemma normalize_up:
  "j \<le> n \<Longrightarrow> m < 2 ^ 53 \<Longrightarrow> 2 ^ 52 \<le> m * 2 ^ j \<Longrightarrow> - 1074 \<le> e - int j \<Longrightarrow>
   2 ^ 52 \<le> m / 2 powi (normalize n m e - e) \<and> m / 2 powi (normalize n m e - e) < 2 ^ 53"
proof (induction n arbitrary: j m e)
  case 0
  then show ?case by simp
next
  case (Suc n)
  show ?case
  proof (cases "m < 2 ^ 52")
    case False
    with Suc.prems show ?thesis by simp
  next
    case True
    with Suc.prems(3) have "j \<noteq> 0" by (cases j) auto
    then obtain j' where j: "j = Suc j'" by (cases j) auto
    with Suc.prems True have a: "j' \<le> n" "m * 2 < 2 ^ 53" "2 ^ 52 \<le> m * 2 * 2 ^ j'"
      "- 1074 \<le> (e - 1) - int j'"
      by (auto simp: algebra_simps)
    from j Suc.prems(4) have "- 1074 < e" by simp
    with True have eq: "normalize (Suc n) m e = normalize n (m * 2) (e - 1)" by simp
    from Suc.IH[OF a] show ?thesis
      unfolding eq by (simp only: powi_shift_up)
  qed
qed

lemma normalize_clamp:
  "nat (e + 1074) \<le> n \<Longrightarrow> - 1074 \<le> e \<Longrightarrow> 0 \<le> m \<Longrightarrow> m * 2 ^ nat (e + 1074) < 2 ^ 52 \<Longrightarrow>
   normalize n m e = - 1074"
proof (induction n arbitrary: m e)
  case 0
  then show ?case by simp
next
  case (Suc n)
  have small: "m < 2 ^ 52"
  proof -
    have "m * 1 \<le> m * 2 ^ nat (e + 1074)"
      using Suc.prems(3) by (intro mult_left_mono) simp_all
    with Suc.prems(4) show ?thesis by simp
  qed
  show ?case
  proof (cases "e = - 1074")
    case True
    with small show ?thesis by simp
  next
    case False
    with Suc.prems(2) have gt: "- 1074 < e" by simp
    then have n: "nat (e + 1074) = Suc (nat (e - 1 + 1074))" by simp
    from Suc.prems gt n have a: "nat (e - 1 + 1074) \<le> n" "- 1074 \<le> e - 1" "0 \<le> m * 2"
      "m * 2 * 2 ^ nat (e - 1 + 1074) < 2 ^ 52"
      by (auto simp: algebra_simps)
    from Suc.IH[OF a] small gt show ?thesis by simp
  qed
qed

lemma roundEven_close: "\<bar>of_int (roundEven z) - z\<bar> \<le> 1 / 2"
  unfolding roundEven_def Let_def by (simp; linarith)

lemma normalize_normal:
  assumes lo: "1 / 2 ^ 1022 \<le> m" and hi: "m < 2 ^ 1024"
  shows "2 ^ 52 \<le> m / 2 powi normalize 2200 m 0 \<and> m / 2 powi normalize 2200 m 0 < 2 ^ 53"
proof (cases "2 ^ 52 \<le> m")
  case True
  have "m < 2 ^ 53 * 2 ^ 971" using hi by simp
  from normalize_down[of 971 2200 m 0, OF _ True this] show ?thesis by simp
next
  case False
  then have a: "m < 2 ^ 53" by simp
  have "(2::real) ^ 52 = 1 / 2 ^ 1022 * 2 ^ 1074" by simp
  also have "\<dots> \<le> m * 2 ^ 1074" using lo by (intro mult_right_mono) simp_all
  finally have b: "2 ^ 52 \<le> m * 2 ^ 1074" .
  from normalize_up[of 1074 2200 m 0, OF _ a b] show ?thesis by simp
qed

lemma fl64_normal:
  assumes lo: "1 / 2 ^ 1022 \<le> \<bar>x\<bar>" and hi: "\<bar>x\<bar> \<le> 2 ^ 1023"
  shows "\<exists>y. fl64 x = Fin y \<and> \<bar>y - x\<bar> \<le> \<bar>x\<bar> / 2 ^ 53"
proof -
  define q :: real where "q = 2 powi normalize 2200 \<bar>x\<bar> 0"
  define y where "y = of_int (roundEven (x / q)) * q"
  have q0: "0 < q" by (simp add: q_def)
  from hi have "\<bar>x\<bar> < 2 ^ 1024" by simp
  from normalize_normal[OF lo this] have bin: "2 ^ 52 \<le> \<bar>x\<bar> / q" by (simp add: q_def)
  then have qle: "q * 2 ^ 52 \<le> \<bar>x\<bar>" using q0 by (simp add: field_simps)
  have "y - x = (of_int (roundEven (x / q)) - x / q) * q"
    using q0 by (simp add: y_def field_simps)
  then have "\<bar>y - x\<bar> = \<bar>of_int (roundEven (x / q)) - x / q\<bar> * q"
    using q0 by (simp add: abs_mult)
  also have "\<dots> \<le> 1 / 2 * q"
    using roundEven_close[of "x / q"] q0 by (intro mult_right_mono) simp_all
  also have "\<dots> \<le> \<bar>x\<bar> / 2 ^ 53" using qle by simp
  finally have err: "\<bar>y - x\<bar> \<le> \<bar>x\<bar> / 2 ^ 53" .
  then have "\<bar>y\<bar> \<le> \<bar>x\<bar> + \<bar>x\<bar> / 2 ^ 53" by linarith
  also have "\<dots> \<le> 2 ^ 1023 + 2 ^ 1023 / 2 ^ 53" using hi by (intro add_mono divide_right_mono) simp_all
  also have "\<dots> < 2 ^ 1024" by simp
  finally have "\<not> 2 ^ 1024 \<le> \<bar>y\<bar>" by simp
  then have "fl64 x = Fin y" by (simp add: fl64_def Let_def q_def y_def)
  with err show ?thesis by blast
qed

lemma fl64_tiny:
  assumes "\<bar>x\<bar> < 1 / 2 ^ 1022"
  shows "\<exists>y. fl64 x = Fin y \<and> \<bar>y - x\<bar> \<le> 1 / 2 ^ 1075"
proof -
  have "\<bar>x\<bar> * 2 ^ 1074 < 1 / 2 ^ 1022 * 2 ^ 1074"
    using assms by (intro mult_strict_right_mono) simp_all
  then have "\<bar>x\<bar> * 2 ^ nat (0 + 1074) < 2 ^ 52" by simp
  from normalize_clamp[of 0 2200 "\<bar>x\<bar>", OF _ _ _ this]
  have e: "normalize 2200 \<bar>x\<bar> 0 = - 1074" by simp
  define q :: real where "q = 2 powi (- 1074)"
  define y where "y = of_int (roundEven (x / q)) * q"
  have q0: "0 < q" by (simp add: q_def)
  have qv: "q = 1 / 2 ^ 1074" by (simp add: q_def power_int_minus field_simps)
  have "y - x = (of_int (roundEven (x / q)) - x / q) * q"
    using q0 by (simp add: y_def field_simps)
  then have "\<bar>y - x\<bar> = \<bar>of_int (roundEven (x / q)) - x / q\<bar> * q"
    using q0 by (simp add: abs_mult)
  also have "\<dots> \<le> 1 / 2 * q"
    using roundEven_close[of "x / q"] q0 by (intro mult_right_mono) simp_all
  also have "\<dots> = 1 / 2 ^ 1075" by (simp add: qv)
  finally have err: "\<bar>y - x\<bar> \<le> 1 / 2 ^ 1075" .
  then have "\<bar>y\<bar> \<le> \<bar>x\<bar> + 1 / 2 ^ 1075" by linarith
  also have "\<dots> < 1 / 2 ^ 1022 + 1 / 2 ^ 1075" using assms by simp
  also have "\<dots> < 2 ^ 1024" by simp
  finally have "\<not> 2 ^ 1024 \<le> \<bar>y\<bar>" by simp
  then have "fl64 x = Fin y" by (simp add: fl64_def Let_def e q_def y_def)
  with err show ?thesis by blast
qed


lemma fl64_abs:
  assumes "\<bar>x\<bar> \<le> 2 ^ 1023"
  shows "\<exists>y. fl64 x = Fin y \<and> \<bar>y - x\<bar> \<le> \<bar>x\<bar> / 2 ^ 53 + 1 / 2 ^ 1075"
proof (cases "1 / 2 ^ 1022 \<le> \<bar>x\<bar>")
  case True
  from fl64_normal[OF True assms] obtain y where "fl64 x = Fin y" "\<bar>y - x\<bar> \<le> \<bar>x\<bar> / 2 ^ 53"
    by blast
  moreover have "\<bar>x\<bar> / 2 ^ 53 \<le> \<bar>x\<bar> / 2 ^ 53 + 1 / 2 ^ 1075" by simp
  ultimately show ?thesis by (meson order_trans)
next
  case False
  then have "\<bar>x\<bar> < 1 / 2 ^ 1022" by simp
  from fl64_tiny[OF this] obtain y where "fl64 x = Fin y" "\<bar>y - x\<bar> \<le> 1 / 2 ^ 1075" by blast
  moreover have "1 / 2 ^ 1075 \<le> \<bar>x\<bar> / 2 ^ 53 + 1 / 2 ^ (1075::nat)" by simp
  ultimately show ?thesis by (meson order_trans)
qed

lemma fl64_pos:
  assumes "1 / 2 ^ 1022 \<le> x" "x \<le> 2 ^ 1023"
  shows "\<exists>y. fl64 x = Fin y \<and> x * (1 - 1 / 2 ^ 53) \<le> y \<and> y \<le> x * (1 + 1 / 2 ^ 53)"
proof -
  have "(0::real) < 1 / 2 ^ 1022" by simp
  with assms(1) have x0: "0 < x" by linarith
  with assms have "1 / 2 ^ 1022 \<le> \<bar>x\<bar>" "\<bar>x\<bar> \<le> 2 ^ 1023" by simp_all
  from fl64_normal[OF this] obtain y where y: "fl64 x = Fin y" "\<bar>y - x\<bar> \<le> \<bar>x\<bar> / 2 ^ 53" by blast
  define d where "d = x / 2 ^ 53"
  from y(2) x0 have "\<bar>y - x\<bar> \<le> d" by (simp add: d_def)
  then have "x - d \<le> y" "y \<le> x + d" by linarith+
  moreover have "x * (1 - 1 / 2 ^ 53) = x - d" "x * (1 + 1 / 2 ^ 53) = x + d"
    by (simp_all add: d_def algebra_simps)
  ultimately show ?thesis using y(1) by simp
qed

section \<open>Properties of calculateTimedPoints\<close>

lemma rounded_nonfinite: "\<not> isFinite x \<Longrightarrow> rounded x = x"
  by (cases x) auto

lemma div_zero_nonfinite: "\<not> isFinite (jdiv x (Fin 0))"
  by (cases x) auto

lemma div_NaN_nonfinite: "\<not> isFinite (jdiv x NaN)"
  by (cases x) auto

lemma mul_nonfinite: "\<not> isFinite x \<Longrightarrow> \<not> isFinite (jmul x (Fin 3600000))"
  by (cases x) auto

lemma add_nonfinite: "\<not> isFinite x \<Longrightarrow> \<not> isFinite (jadd t x)"
  by (cases x; cases t) auto

lemma newDate_nonfinite: "\<not> isFinite x \<Longrightarrow> newDate x = Date NaN"
  by (cases x) (auto simp: newDate_def)

lemma nonfinite_time:
  assumes "\<not> isFinite x"
  shows "newDate (rounded (jadd t (rounded (jmul (rounded x) (Fin 3600000))))) = Date NaN"
proof -
  from assms have "\<not> isFinite (jmul (rounded x) (Fin 3600000))"
    by (simp add: rounded_nonfinite mul_nonfinite)
  then have "\<not> isFinite (jadd t (rounded (jmul (rounded x) (Fin 3600000))))"
    by (simp add: rounded_nonfinite add_nonfinite)
  then show ?thesis by (simp add: rounded_nonfinite newDate_nonfinite)
qed

text \<open>
  The rounding error of the offset: two divisions and a multiplication, each within one
  part in \<open>2^53\<close> of its exact result.
\<close>

lemma offset_close:
  fixes c v :: real
  assumes c: "1 / 2 ^ 100 \<le> c" "c \<le> 2 ^ 100"
    and v: "1 / 2 ^ 100 \<le> v" "v \<le> 2 ^ 100"
    and h: "c / 1000 / v * 3600000 \<le> 2 ^ 43"
  shows "\<exists>h'. rounded (jmul (rounded (jdiv (rounded (jdiv (Fin c) (Fin 1000))) (Fin v)))
                   (Fin 3600000)) = Fin h'
              \<and> \<bar>h' - c / 1000 / v * 3600000\<bar> \<le> 1 / 2 ^ 8"
proof -
  have "(0::real) < 1 / 2 ^ 100" by simp
  with v(1) have v0: "0 < v" by linarith
  define a where "a = c / 1000"
  define b where "b = a / v"
  define hx where "hx = b * 3600000"
  have a_rng: "1 / 2 ^ 110 \<le> a" "a \<le> 2 ^ 100"
    using c by (simp_all add: a_def)
  then have "1 / 2 ^ 1022 \<le> a" "a \<le> 2 ^ 1023" by simp_all
  from fl64_pos[OF this] obtain a' where a': "fl64 a = Fin a'"
    "a * (1 - 1 / 2 ^ 53) \<le> a'" "a' \<le> a * (1 + 1 / 2 ^ 53)" by blast
  from a'(2,3) a_rng have a'_rng: "1 / 2 ^ 111 \<le> a'" "a' \<le> 2 ^ 101" by simp_all
  define z2 where "z2 = a' / v"
  have z2_lo: "1 / 2 ^ 211 \<le> z2"
  proof -
    have "1 / 2 ^ 211 * v \<le> 1 / 2 ^ 211 * 2 ^ 100" using v(2) by (intro mult_left_mono) simp_all
    also have "\<dots> \<le> a'" using a'_rng(1) by simp
    finally show ?thesis using v0 by (simp add: z2_def pos_le_divide_eq)
  qed
  have z2_hi: "z2 \<le> 2 ^ 201"
  proof -
    have "a' \<le> 2 ^ 201 * (1 / 2 ^ 100)" using a'_rng(2) by simp
    also have "\<dots> \<le> 2 ^ 201 * v" using v(1) by (intro mult_left_mono) simp_all
    finally show ?thesis using v0 by (simp add: z2_def pos_divide_le_eq)
  qed
  from z2_lo z2_hi have "1 / 2 ^ 1022 \<le> z2" "z2 \<le> 2 ^ 1023" by simp_all
  from fl64_pos[OF this] obtain b' where b': "fl64 z2 = Fin b'"
    "z2 * (1 - 1 / 2 ^ 53) \<le> b'" "b' \<le> z2 * (1 + 1 / 2 ^ 53)" by blast
  from b'(2,3) z2_lo z2_hi have b'_rng: "1 / 2 ^ 212 \<le> b'" "b' \<le> 2 ^ 202" by simp_all
  define z3 where "z3 = b' * 3600000"
  from b'_rng have "1 / 2 ^ 1022 \<le> z3" "z3 \<le> 2 ^ 1023" by (simp_all add: z3_def)
  from fl64_pos[OF this] obtain h' where h': "fl64 z3 = Fin h'"
    "z3 * (1 - 1 / 2 ^ 53) \<le> h'" "h' \<le> z3 * (1 + 1 / 2 ^ 53)" by blast
  have comp: "rounded (jmul (rounded (jdiv (rounded (jdiv (Fin c) (Fin 1000))) (Fin v)))
                   (Fin 3600000)) = Fin h'"
    using a'(1) b'(1) h'(1) v0 by (simp add: a_def z2_def z3_def)
  have zb: "b * (1 - 1 / 2 ^ 53) \<le> z2" "z2 \<le> b * (1 + 1 / 2 ^ 53)"
    using divide_right_mono[OF a'(2), of v] divide_right_mono[OF a'(3), of v] v0
    by (simp_all add: z2_def b_def)
  have hx0: "0 \<le> hx" "hx \<le> 2 ^ 43"
    using a_rng v0 h by (simp_all add: hx_def b_def a_def)
  have lo3: "hx * ((1 - 1 / 2 ^ 53) * (1 - 1 / 2 ^ 53) * (1 - 1 / 2 ^ 53)) \<le> h'"
    using zb(1) b'(2) h'(2) by (simp add: hx_def z3_def)
  have hi3: "h' \<le> hx * ((1 + 1 / 2 ^ 53) * (1 + 1 / 2 ^ 53) * (1 + 1 / 2 ^ 53))"
    using zb(2) b'(3) h'(3) by (simp add: hx_def z3_def)
  have k1: "1 - 4 / 2 ^ 53 \<le> (1 - 1 / 2 ^ 53) * (1 - 1 / 2 ^ 53) * (1 - 1 / 2 ^ (53::nat) :: real)"
    and k3: "(1 + 1 / 2 ^ 53) * (1 + 1 / 2 ^ 53) * (1 + 1 / 2 ^ 53) \<le> (1 + 4 / 2 ^ (53::nat) :: real)"
    by simp_all
  from mult_left_mono[OF k1 hx0(1)] lo3 have "hx * (1 - 4 / 2 ^ 53) \<le> h'" by linarith
  then have lower: "hx - hx * (4 / 2 ^ 53) \<le> h'" by (simp add: algebra_simps)
  from mult_left_mono[OF k3 hx0(1)] hi3 have "h' \<le> hx * (1 + 4 / 2 ^ 53)" by linarith
  then have upper: "h' \<le> hx + hx * (4 / 2 ^ 53)" by (simp add: algebra_simps)
  have "hx * (4 / 2 ^ 53) \<le> 2 ^ 43 * (4 / 2 ^ 53)"
    using hx0(2) by (intro mult_right_mono) simp_all
  also have "\<dots> = 1 / 2 ^ (8::nat)" by simp
  finally have "hx * (4 / 2 ^ 53) \<le> 1 / 2 ^ 8" .
  with lower upper have "\<bar>h' - hx\<bar> \<le> 1 / 2 ^ 8" by linarith
  with comp show ?thesis by (auto simp: hx_def b_def a_def)
qed

text \<open>
  Adding the start and clipping: one more rounding, then the truncation to a whole
  millisecond.
\<close>

lemma sum_close:
  fixes s h' hx :: real
  assumes s: "\<bar>s\<bar> \<le> 2 ^ 43" and hx: "0 \<le> hx" "hx \<le> 2 ^ 43" and h': "\<bar>h' - hx\<bar> \<le> 1 / 2 ^ 8"
  shows "\<exists>m. newDate (rounded (jadd (Fin s) (Fin h'))) = Date (Fin (of_int m)) \<and>
             \<bar>of_int m - (s + hx)\<bar> < 1 + 1 / 100"
proof -
  define x where "x = s + h'"
  have p: "(2::real) ^ 44 = 2 * 2 ^ 43" "(2::real) ^ 45 = 4 * 2 ^ 43" "1 / 2 ^ 8 \<le> (1::real)"
    "1 / 2 ^ 8 + 1 / 2 ^ 8 < 1 / (100::real)" "(1::real) \<le> 2 ^ 43"
    by simp_all
  from s hx h' p have xb: "\<bar>x\<bar> \<le> 2 ^ 44 + 1" unfolding x_def by linarith
  then have "\<bar>x\<bar> \<le> 2 ^ 1023" by simp
  from fl64_abs[OF this] obtain t' where t': "fl64 x = Fin t'"
    "\<bar>t' - x\<bar> \<le> \<bar>x\<bar> / 2 ^ 53 + 1 / 2 ^ 1075" by blast
  have "\<bar>x\<bar> / 2 ^ 53 \<le> (2 ^ 44 + 1) / 2 ^ 53" using xb by (intro divide_right_mono) simp_all
  also have "\<dots> + 1 / 2 ^ 1075 \<le> (1 / 2 ^ (8::nat) :: real)" by simp
  finally have tx: "\<bar>t' - x\<bar> \<le> 1 / 2 ^ 8" using t'(2) by linarith
  with xb p have tb: "\<bar>t'\<bar> \<le> 2 ^ 45" by linarith
  then have clip: "newDate (Fin t') = Date (Fin (of_int (toInteger t')))"
    by (simp add: newDate_def)
  have "\<bar>of_int (toInteger t') - (s + hx)\<bar> < 1 + 1 / 100"
    using toInteger_close[of t'] tx h' p unfolding x_def by linarith
  with clip t'(1) show ?thesis by (auto simp: x_def)
qed

lemma time_close:
  fixes c v s :: real
  assumes c: "c = 0 \<or> 1 / 2 ^ 100 \<le> c \<and> c \<le> 2 ^ 100"
    and v: "1 / 2 ^ 100 \<le> v" "v \<le> 2 ^ 100"
    and s: "\<bar>s\<bar> \<le> 2 ^ 43"
    and h: "c / 1000 / v * 3600000 \<le> 2 ^ 43"
  shows "\<exists>m. newDate (rounded (jadd (Fin s) (rounded (jmul
                 (rounded (jdiv (rounded (jdiv (Fin c) (Fin 1000))) (Fin v)))
                 (Fin 3600000))))) = Date (Fin (of_int m)) \<and>
             \<bar>of_int m - projectedMillis s v c\<bar> < 1 + 1 / 100"
proof -
  have "(0::real) < 1 / 2 ^ 100" by simp
  with v(1) have v0: "0 < v" by linarith
  define hx where "hx = c / 1000 / v * 3600000"
  have "\<exists>h'. rounded (jmul (rounded (jdiv (rounded (jdiv (Fin c) (Fin 1000))) (Fin v)))
                   (Fin 3600000)) = Fin h' \<and> \<bar>h' - hx\<bar> \<le> 1 / 2 ^ 8 \<and> 0 \<le> hx"
  proof (cases "c = 0")
    case True
    with v0 show ?thesis by (simp add: hx_def)
  next
    case False
    with c have cr: "1 / 2 ^ 100 \<le> c" "c \<le> 2 ^ 100" by simp_all
    moreover have "(0::real) < 1 / 2 ^ 100" by simp
    ultimately have "0 \<le> c" by linarith
    with v0 have "0 \<le> hx" by (simp add: hx_def)
    with offset_close[OF cr v h] show ?thesis by (auto simp: hx_def)
  qed
  then obtain h' where comp: "rounded (jmul (rounded (jdiv (rounded (jdiv (Fin c) (Fin 1000)))
      (Fin v))) (Fin 3600000)) = Fin h'" and err: "\<bar>h' - hx\<bar> \<le> 1 / 2 ^ 8" and h0: "0 \<le> hx"
    by blast
  from h have hb: "hx \<le> 2 ^ 43" by (simp add: hx_def)
  from sum_close[OF s h0 hb err] comp show ?thesis
    by (simp add: projectedMillis_def hx_def)
qed

text \<open>
  C1. The failing input: one point with \<open>cumulativeDistance\<close> 15000, start at the epoch,
  30 km/h. The object returned has the properties \<open>lat\<close>, \<open>lon\<close> and \<open>time\<close> and no
  \<open>cumulativeDistance\<close>: latitude and longitude are carried over, the distance is not.
\<close>

theorem timed_point_has_no_distance:
  "calculateTimedPoints [\<lparr>lat = Fin 1, lon = Fin 2, cumulativeDistance = Fin 15000\<rparr>]
     (Date (Fin 0)) (Fin 30)
   = [\<lparr>lat = Fin 1, lon = Fin 2, time = Date (Fin 1800000)\<rparr>]"
  by (simp add: calculateTimedPoints_def newDate_def toInteger_def fl64_eval)

text \<open>
  C3, as amended. \<open>calculateTimedPoints\<close> never fails: for every list of points, every
  start time and every speed (zero, negative and non-finite ones too) it returns a list
  of the same length with latitude and longitude carried over. With speed 0 or \<open>NaN\<close>
  every time of the result is the Invalid Date.
\<close>

theorem timed_points_never_fail:
  "length (calculateTimedPoints points startTime avgSpeed) = length points \<and>
   map lat (calculateTimedPoints points startTime avgSpeed) = map lat points \<and>
   map lon (calculateTimedPoints points startTime avgSpeed) = map lon points \<and>
   map time (calculateTimedPoints points startTime (Fin 0)) = replicate (length points) (Date NaN) \<and>
   map time (calculateTimedPoints points startTime NaN) = replicate (length points) (Date NaN)"
  by (simp add: calculateTimedPoints_def o_def nonfinite_time div_zero_nonfinite div_NaN_nonfinite
      map_replicate_const)

theorem timed_points_never_fail_witness:
  "length (calculateTimedPoints threePointTrack (Date (Fin 0)) (Fin (- 20))) = 3 \<and>
   length (calculateTimedPoints threePointTrack (Date (Fin 0)) PInf) = 3 \<and>
   map time (calculateTimedPoints threePointTrack (Date (Fin 0)) (Fin 0))
     = [Date NaN, Date NaN, Date NaN]"
  using timed_points_never_fail[of threePointTrack "Date (Fin 0)" "Fin (- 20)"]
    timed_points_never_fail[of threePointTrack "Date (Fin 0)" PInf]
  by (simp add: threePointTrack_def)

text \<open>At speed 0 the call returns a list: one point in, one point with an Invalid Date out.\<close>

theorem zero_speed_counterexample:
  "calculateTimedPoints [\<lparr>lat = Fin 1, lon = Fin 2, cumulativeDistance = Fin 15000\<rparr>]
     (Date (Fin 0)) (Fin 0)
   = [\<lparr>lat = Fin 1, lon = Fin 2, time = Date NaN\<rparr>]"
  by (simp add: calculateTimedPoints_def newDate_def fl64_eval)

text \<open>
  C8, as amended. For a speed \<open>v\<close> and distances \<open>c\<close> between \<open>2^-100\<close> and \<open>2^100\<close>
  (or \<open>c = 0\<close>), a start time \<open>s\<close> and travel times of at most \<open>2^43\<close> ms (some 278
  years), the result has the length and order of the input, latitude and longitude are
  carried over, and the time of each point is a whole number of milliseconds less than
  1.01 ms away from the start plus (distance in km / \<open>v\<close>) hours. It need not be equal
  to it: the sum is computed in doubles and then truncated towards zero.
\<close>

theorem timed_points_projection:
  assumes v: "1 / 2 ^ 100 \<le> v" "v \<le> 2 ^ 100"
    and s: "\<bar>s\<bar> \<le> 2 ^ 43"
    and range: "\<forall>p\<in>set points. \<exists>c. cumulativeDistance p = Fin c \<and>
                  (c = 0 \<or> 1 / 2 ^ 100 \<le> c \<and> c \<le> 2 ^ 100) \<and>
                  projectedMillis 0 v c \<le> 2 ^ 43"
  shows "length (calculateTimedPoints points (Date (Fin s)) (Fin v)) = length points \<and>
         (\<forall>i<length points. \<exists>c m.
            cumulativeDistance (points ! i) = Fin c \<and>
            lat (calculateTimedPoints points (Date (Fin s)) (Fin v) ! i) = lat (points ! i) \<and>
            lon (calculateTimedPoints points (Date (Fin s)) (Fin v) ! i) = lon (points ! i) \<and>
            time (calculateTimedPoints points (Date (Fin s)) (Fin v) ! i) = Date (Fin (of_int m)) \<and>
            \<bar>of_int m - projectedMillis s v c\<bar> < 1 + 1 / 100)"
proof (intro conjI allI impI)
  show "length (calculateTimedPoints points (Date (Fin s)) (Fin v)) = length points"
    by (simp add: calculateTimedPoints_def)
next
  fix i assume i: "i < length points"
  let ?out = "calculateTimedPoints points (Date (Fin s)) (Fin v)"
  from i range obtain c where c: "cumulativeDistance (points ! i) = Fin c"
    "c = 0 \<or> 1 / 2 ^ 100 \<le> c \<and> c \<le> 2 ^ 100" "projectedMillis 0 v c \<le> 2 ^ 43"
    using nth_mem by blast
  from c(3) have "c / 1000 / v * 3600000 \<le> 2 ^ 43" by (simp add: projectedMillis_def)
  from time_close[OF c(2) v s this] obtain m where
    m: "newDate (rounded (jadd (Fin s) (rounded (jmul
          (rounded (jdiv (rounded (jdiv (Fin c) (Fin 1000))) (Fin v)))
          (Fin 3600000))))) = Date (Fin (of_int m))"
    "\<bar>of_int m - projectedMillis s v c\<bar> < 1 + 1 / 100" by blast
  have "time (?out ! i) = Date (Fin (of_int m))"
    using i c(1) m(1) by (simp add: calculateTimedPoints_def)
  moreover have "lat (?out ! i) = lat (points ! i)" "lon (?out ! i) = lon (points ! i)"
    using i by (simp_all add: calculateTimedPoints_def)
  ultimately show "\<exists>c m.
            cumulativeDistance (points ! i) = Fin c \<and>
            lat (?out ! i) = lat (points ! i) \<and>
            lon (?out ! i) = lon (points ! i) \<and>
            time (?out ! i) = Date (Fin (of_int m)) \<and>
            \<bar>of_int m - projectedMillis s v c\<bar> < 1 + 1 / 100"
    using c(1) m(2) by blast
qed

text \<open>
  The scenario of the specification: start 2024-01-01T00:00:00Z (1704067200000 ms),
  30 km/h, a point at 15000 metres. Every intermediate result is a double, and the time
  is exactly 1800000 ms later, 2024-01-01T00:30:00Z.
\<close>

theorem timed_points_projection_witness:
  "(1 / 2 ^ 100 \<le> (30::real)) \<and> (30::real) \<le> 2 ^ 100 \<and> \<bar>1704067200000 :: real\<bar> \<le> 2 ^ 43 \<and>
   (1 / 2 ^ 100 \<le> (15000::real)) \<and> (15000::real) \<le> 2 ^ 100 \<and>
   projectedMillis 0 30 15000 \<le> 2 ^ 43 \<and>
   projectedMillis 1704067200000 30 15000 = 1704069000000 \<and>
   calculateTimedPoints [\<lparr>lat = Fin 50, lon = Fin 8, cumulativeDistance = Fin 15000\<rparr>]
     (Date (Fin 1704067200000)) (Fin 30)
   = [\<lparr>lat = Fin 50, lon = Fin 8, time = Date (Fin 1704069000000)\<rparr>]"
proof -
  let ?ps = "[\<lparr>lat = Fin 50, lon = Fin 8, cumulativeDistance = Fin 15000\<rparr>]"
  have v: "1 / 2 ^ 100 \<le> (30::real)" "(30::real) \<le> 2 ^ 100" by simp_all
  have s: "\<bar>1704067200000 :: real\<bar> \<le> 2 ^ 43" by simp
  have c: "1 / 2 ^ 100 \<le> (15000::real)" "(15000::real) \<le> 2 ^ 100" by simp_all
  have pm: "projectedMillis 0 30 15000 \<le> 2 ^ 43"
    "projectedMillis 1704067200000 30 15000 = 1704069000000"
    by (simp_all add: projectedMillis_def)
  have r: "\<forall>p\<in>set ?ps. \<exists>c. cumulativeDistance p = Fin c \<and>
                  (c = 0 \<or> 1 / 2 ^ 100 \<le> c \<and> c \<le> 2 ^ 100) \<and>
                  projectedMillis 0 30 c \<le> 2 ^ 43"
    using c pm(1) by simp
  from timed_points_projection[OF v s r]
  have len: "length (calculateTimedPoints ?ps (Date (Fin 1704067200000)) (Fin 30)) = 1"
    by simp
  have "calculateTimedPoints ?ps (Date (Fin 1704067200000)) (Fin 30)
      = [\<lparr>lat = Fin 50, lon = Fin 8, time = Date (Fin 1704069000000)\<rparr>]"
    by (simp add: calculateTimedPoints_def newDate_def toInteger_def fl64_eval)
  with len v s c pm show ?thesis by simp
qed

text \<open>
  Nine metres at 1 km/h from the epoch: the exact travel time is 32400 ms, a whole
  number, and the \<open>Date\<close> holds 32399 ms, because 9/1000 is not a double. One metre at
  7 km/h: the exact time is 3600/7 ms, the \<open>Date\<close> holds 514 ms.
\<close>

theorem projection_truncated_counterexample:
  "calculateTimedPoints [\<lparr>lat = Fin 50, lon = Fin 8, cumulativeDistance = Fin 9\<rparr>]
     (Date (Fin 0)) (Fin 1)
   = [\<lparr>lat = Fin 50, lon = Fin 8, time = Date (Fin 32399)\<rparr>] \<and>
   projectedMillis 0 1 9 = 32400 \<and>
   calculateTimedPoints [\<lparr>lat = Fin 50, lon = Fin 8, cumulativeDistance = Fin 1\<rparr>]
     (Date (Fin 0)) (Fin 7)
   = [\<lparr>lat = Fin 50, lon = Fin 8, time = Date (Fin 514)\<rparr>] \<and>
   projectedMillis 0 7 1 = 3600 / 7"
  by (simp add: calculateTimedPoints_def newDate_def toInteger_def projectedMillis_def fl64_eval)

text \<open>The values of lines 112-113 on the way, as doubles.\<close>

lemma offsets_in_doubles:
  "fl64 (9 / 1000) = Fin (5188146770730811 / 2 ^ 59) \<and>
   fl64 (5188146770730811 / 2 ^ 59 * 3600000) = Fin (8906044184985599 / 2 ^ 38) \<and>
   (8906044184985599 / 2 ^ 38 :: real) < 32400 \<and>
   fl64 (23 / 5) = Fin (2589569785738035 / 2 ^ 49) \<and>
   fl64 (2589569785738035 / 2 ^ 49 * 3600000) = Fin (8890582302719999 / 2 ^ 29) \<and>
   (8890582302719999 / 2 ^ 29 :: real) < 16560000"
  by (simp add: fl64_eval)

section \<open>Properties of fetchWeatherData\<close>

lemma requestFor_cases:
  "(\<exists>t. time p = Date (Fin t) \<and>
        requestFor p = Inr \<lparr> latitude = lat p, longitude = lon p,
                             start_date = \<lfloor>t / 86400000\<rfloor>, end_date = \<lfloor>t / 86400000\<rfloor> \<rparr>) \<or>
   (\<not> validTime p \<and> requestFor p = Inl RangeError)"
proof (cases "time p")
  case (Date t)
  then show ?thesis by (cases t) (simp_all add: requestFor_def validTime_def)
qed

lemma fetchPoint_fields:
  "weatherData (fetchPoint lookup getHours newMarker run p)
     = weatherData run @ successes [outcome lookup getHours p] \<and>
   consoleErrors (fetchPoint lookup getHours newMarker run p)
     = consoleErrors run @ logged lookup getHours newMarker p \<and>
   requests (fetchPoint lookup getHours newMarker run p)
     = requests run @ (case expectedRequest p of None \<Rightarrow> [] | Some req \<Rightarrow> [req])"
proof -
  from requestFor_cases[of p] show ?thesis
  proof
    assume "\<not> validTime p \<and> requestFor p = Inl RangeError"
    then show ?thesis
      by (cases "time p"; cases "getTime (time p)")
         (auto simp: fetchPoint_def outcome_def logged_def expectedRequest_def validTime_def)
  next
    assume "\<exists>t. time p = Date (Fin t) \<and>
        requestFor p = Inr \<lparr> latitude = lat p, longitude = lon p,
                             start_date = \<lfloor>t / 86400000\<rfloor>, end_date = \<lfloor>t / 86400000\<rfloor> \<rparr>"
    then obtain t where t: "time p = Date (Fin t)"
      and r: "requestFor p = Inr \<lparr> latitude = lat p, longitude = lon p,
                             start_date = \<lfloor>t / 86400000\<rfloor>, end_date = \<lfloor>t / 86400000\<rfloor> \<rparr>"
      by blast
    show ?thesis
    proof (cases "lookup \<lparr> latitude = lat p, longitude = lon p,
                             start_date = \<lfloor>t / 86400000\<rfloor>, end_date = \<lfloor>t / 86400000\<rfloor> \<rparr>")
      case (Inl e)
      with t r show ?thesis
        by (simp add: fetchPoint_def outcome_def logged_def expectedRequest_def Let_def)
    next
      case (Inr h)
      with t r show ?thesis
        by (cases "newMarker (lat p) (lon p) (elemAt (temperature_2m h) (int (getHours (Date (Fin t)))))")
           (simp_all add: fetchPoint_def outcome_def logged_def expectedRequest_def Let_def
              annotated_def addMarker_def)
    qed
  qed
qed

lemma foldl_appends:
  assumes "\<And>run p. F (step run p) = F run @ g p"
  shows "F (foldl step run ps) = F run @ concat (map g ps)"
  by (induction ps arbitrary: run) (simp_all add: assms)

lemma successes_concat: "concat (map (\<lambda>p. successes [f p]) ps) = successes (map f ps)"
proof (induction ps)
  case Nil
  show ?case by simp
next
  case (Cons p ps)
  then show ?case by (cases "f p") simp_all
qed

lemma fetch_loop:
  "weatherData (foldl (fetchPoint lookup getHours newMarker) run points)
     = weatherData run @ successes (map (outcome lookup getHours) points) \<and>
   consoleErrors (foldl (fetchPoint lookup getHours newMarker) run points)
     = consoleErrors run @ concat (map (logged lookup getHours newMarker) points) \<and>
   requests (foldl (fetchPoint lookup getHours newMarker) run points)
     = requests run @ concat (map (\<lambda>p. case expectedRequest p of None \<Rightarrow> [] | Some req \<Rightarrow> [req]) points)"
proof (intro conjI)
  have "weatherData (foldl (fetchPoint lookup getHours newMarker) run points)
      = weatherData run @ concat (map (\<lambda>p. successes [outcome lookup getHours p]) points)"
    by (rule foldl_appends) (simp add: fetchPoint_fields)
  then show "weatherData (foldl (fetchPoint lookup getHours newMarker) run points)
     = weatherData run @ successes (map (outcome lookup getHours) points)"
    by (simp only: successes_concat)
next
  show "consoleErrors (foldl (fetchPoint lookup getHours newMarker) run points)
     = consoleErrors run @ concat (map (logged lookup getHours newMarker) points)"
    by (rule foldl_appends) (simp add: fetchPoint_fields)
next
  show "requests (foldl (fetchPoint lookup getHours newMarker) run points)
     = requests run @ concat (map (\<lambda>p. case expectedRequest p of None \<Rightarrow> [] | Some req \<Rightarrow> [req]) points)"
    by (rule foldl_appends) (simp add: fetchPoint_fields)
qed

lemma length_split: "length (successes rs) + length (failures rs) = length rs"
  by (induction rs rule: successes.induct) auto

lemma successes_restrict:
  "map timedPart (successes (map (outcome lookup getHours) points))
     = filter (\<lambda>p. \<not> isl (outcome lookup getHours p)) points"
proof (induction points)
  case Nil
  show ?case by simp
next
  case (Cons p points)
  show ?case
  proof (cases "outcome lookup getHours p")
    case (Inl e)
    with Cons.IH show ?thesis by simp
  next
    case (Inr w)
    then have "timedPart w = p"
      by (auto simp: outcome_def timedPart_def split: jsnum.splits sum.splits)
    with Inr Cons.IH show ?thesis by simp
  qed
qed

lemma requests_valid:
  "map Some (concat (map (\<lambda>p. case expectedRequest p of None \<Rightarrow> [] | Some req \<Rightarrow> [req]) points))
     = map expectedRequest (filter validTime points)"
proof (induction points)
  case Nil
  show ?case by simp
next
  case (Cons p points)
  then show ?case
    by (cases "getTime (time p)") (simp_all add: expectedRequest_def validTime_def)
qed

text \<open>
  C9, as amended. For every list of timed points, every lookup, clock and marker
  function, \<open>fetchWeatherData\<close> takes the points one by one in their order. The lookup
  is invoked once, in input order, for each point whose time is a valid date, with that
  point's position and day; for a point with an Invalid Date no lookup is made. A point
  whose lookup succeeds adds exactly one weather point (the point with the readings of
  its hour), every other point adds none, and the loop goes on: \<open>weatherData\<close> is the
  list of successful outcomes in input order, its points are the input restricted to
  the successes, and it is no longer than the input. What is logged is, point by
  point, the failure of the lookup or of the marker.
\<close>

theorem weather_restricted_to_successes:
  "weatherData (fetchWeatherData lookup getHours newMarker points)
     = successes (map (outcome lookup getHours) points) \<and>
   map timedPart (weatherData (fetchWeatherData lookup getHours newMarker points))
     = filter (\<lambda>p. \<not> isl (outcome lookup getHours p)) points \<and>
   length (weatherData (fetchWeatherData lookup getHours newMarker points))
     + length (failures (map (outcome lookup getHours) points)) = length points \<and>
   length (weatherData (fetchWeatherData lookup getHours newMarker points)) \<le> length points \<and>
   map Some (requests (fetchWeatherData lookup getHours newMarker points))
     = map expectedRequest (filter validTime points) \<and>
   consoleErrors (fetchWeatherData lookup getHours newMarker points)
     = concat (map (logged lookup getHours newMarker) points)"
proof -
  let ?r = "fetchWeatherData lookup getHours newMarker points"
  let ?os = "map (outcome lookup getHours) points"
  from fetch_loop[of lookup getHours newMarker
      "\<lparr> requests = [], weatherData = [], markers = [], consoleErrors = [] \<rparr>" points]
  have w: "weatherData ?r = successes ?os"
    and e: "consoleErrors ?r = concat (map (logged lookup getHours newMarker) points)"
    and q: "requests ?r = concat (map (\<lambda>p. case expectedRequest p of None \<Rightarrow> [] | Some req \<Rightarrow> [req]) points)"
    by (simp_all add: fetchWeatherData_def)
  have split: "length (successes ?os) + length (failures ?os) = length points"
    using length_split[of ?os] by simp
  then have le: "length (successes ?os) \<le> length points" by linarith
  show ?thesis
    using w e q split le successes_restrict[of lookup getHours points] requests_valid[of points]
    by simp
qed

text \<open>
  The scenario of the specification: five timed points, the lookup fails for the point
  at index 2 only. Five requests are sent in order, four weather points come out, in
  the order of the other four input points and with the readings of the reply, and one
  error is logged.
\<close>

theorem weather_restricted_to_successes_witness:
  "map latitude (requests (fetchWeatherData failsAtTwo midnight leafletMarker fivePoints))
     = [Fin 0, Fin 1, Fin 2, Fin 3, Fin 4] \<and>
   weatherData (fetchWeatherData failsAtTwo midnight leafletMarker fivePoints)
     = [\<lparr>lat = Fin 0, lon = Fin 8, time = Date (Fin 0),
         temp = Some (Fin 11), wind = Some (Fin 3), code = Some (Fin 0)\<rparr>,
        \<lparr>lat = Fin 1, lon = Fin 8, time = Date (Fin 600000),
         temp = Some (Fin 11), wind = Some (Fin 3), code = Some (Fin 0)\<rparr>,
        \<lparr>lat = Fin 3, lon = Fin 8, time = Date (Fin 1800000),
         temp = Some (Fin 11), wind = Some (Fin 3), code = Some (Fin 0)\<rparr>,
        \<lparr>lat = Fin 4, lon = Fin 8, time = Date (Fin 2400000),
         temp = Some (Fin 11), wind = Some (Fin 3), code = Some (Fin 0)\<rparr>] \<and>
   consoleErrors (fetchWeatherData failsAtTwo midnight leafletMarker fivePoints) = [NetworkError]"
proof -
  from weather_restricted_to_successes[of failsAtTwo midnight leafletMarker fivePoints]
  have w: "weatherData (fetchWeatherData failsAtTwo midnight leafletMarker fivePoints)
             = successes (map (outcome failsAtTwo midnight) fivePoints)"
    and q: "map Some (requests (fetchWeatherData failsAtTwo midnight leafletMarker fivePoints))
             = map expectedRequest (filter validTime fivePoints)"
    and e: "consoleErrors (fetchWeatherData failsAtTwo midnight leafletMarker fivePoints)
             = concat (map (logged failsAtTwo midnight leafletMarker) fivePoints)"
    by simp_all
  have "map (map_option latitude)
          (map Some (requests (fetchWeatherData failsAtTwo midnight leafletMarker fivePoints)))
        = map Some [Fin 0, Fin 1, Fin 2, Fin 3, Fin 4]"
    unfolding q by (simp add: fivePoints_def validTime_def expectedRequest_def)
  then have "map latitude (requests (fetchWeatherData failsAtTwo midnight leafletMarker fivePoints))
        = [Fin 0, Fin 1, Fin 2, Fin 3, Fin 4]"
    by (simp add: map_eq_Cons_conv)
  moreover have "successes (map (outcome failsAtTwo midnight) fivePoints)
     = [\<lparr>lat = Fin 0, lon = Fin 8, time = Date (Fin 0),
         temp = Some (Fin 11), wind = Some (Fin 3), code = Some (Fin 0)\<rparr>,
        \<lparr>lat = Fin 1, lon = Fin 8, time = Date (Fin 600000),
         temp = Some (Fin 11), wind = Some (Fin 3), code = Some (Fin 0)\<rparr>,
        \<lparr>lat = Fin 3, lon = Fin 8, time = Date (Fin 1800000),
         temp = Some (Fin 11), wind = Some (Fin 3), code = Some (Fin 0)\<rparr>,
        \<lparr>lat = Fin 4, lon = Fin 8, time = Date (Fin 2400000),
         temp = Some (Fin 11), wind = Some (Fin 3), code = Some (Fin 0)\<rparr>]"
    by (simp add: fivePoints_def outcome_def failsAtTwo_def midnight_def elemAt_def)
  moreover have "concat (map (logged failsAtTwo midnight leafletMarker) fivePoints) = [NetworkError]"
    by (simp add: fivePoints_def logged_def outcome_def failsAtTwo_def midnight_def elemAt_def
        leafletMarker_def)
  ultimately show ?thesis using w e by simp
qed

text \<open>
  With speed 0 every time is the Invalid Date: three points go in, no request is sent,
  nothing comes out and three errors are logged.
\<close>

theorem no_lookup_for_invalid_date_counterexample:
  "requests (fetchWeatherData failsAtTwo midnight leafletMarker
       (calculateTimedPoints threePointTrack (Date (Fin 0)) (Fin 0))) = [] \<and>
   weatherData (fetchWeatherData failsAtTwo midnight leafletMarker
       (calculateTimedPoints threePointTrack (Date (Fin 0)) (Fin 0))) = [] \<and>
   consoleErrors (fetchWeatherData failsAtTwo midnight leafletMarker
       (calculateTimedPoints threePointTrack (Date (Fin 0)) (Fin 0)))
     = [RangeError, RangeError, RangeError]"
  by (simp add: calculateTimedPoints_def threePointTrack_def newDate_def fl64_eval
      fetchWeatherData_def fetchPoint_def requestFor_def)

text \<open>
  A marker that cannot be placed does not take the point back: the point is in
  \<open>weatherData\<close>, and the error of the marker is logged.
\<close>

lemma marker_failure_keeps_point:
  "weatherData (fetchWeatherData failsAtTwo midnight leafletMarker
       [\<lparr>lat = NaN, lon = Fin 8, time = Date (Fin 0)\<rparr>])
     = [\<lparr>lat = NaN, lon = Fin 8, time = Date (Fin 0),
         temp = Some (Fin 11), wind = Some (Fin 3), code = Some (Fin 0)\<rparr>] \<and>
   markers (fetchWeatherData failsAtTwo midnight leafletMarker
       [\<lparr>lat = NaN, lon = Fin 8, time = Date (Fin 0)\<rparr>]) = [] \<and>
   consoleErrors (fetchWeatherData failsAtTwo midnight leafletMarker
       [\<lparr>lat = NaN, lon = Fin 8, time = Date (Fin 0)\<rparr>]) = [LeafletError]"
  by (simp add: fetchWeatherData_def fetchPoint_def requestFor_def failsAtTwo_def midnight_def
      annotated_def addMarker_def leafletMarker_def elemAt_def Let_def)

end
